theory Spec2Isabelle
  imports Complex_Main "HOL-Library.Sublist" "HOL-Library.Word"
begin

section \<open>Colour palette and distance model\<close>

text \<open>
  The repository holds three revisions of one server program. Definitions without a
  suffix embed \<^verbatim>\<open>src/server.js\<close>; the suffix \<open>_dark\<close> marks the revision
  with the black background (first document of \<^verbatim>\<open>src/unnamed/part_000\<close>) and
  the suffix \<open>_oneshot\<close> the revision with the single \<^verbatim>\<open>/generate\<close> route
  (second document of that file). Where the three agree, one definition serves all.
\<close>

definition GRID_COLS :: nat where
  "GRID_COLS = 48"

definition GRID_ROWS :: nat where
  "GRID_ROWS = 32"

record entry =
  name :: string
  hex :: string
  rgb :: "int \<times> int \<times> int"

definition bacteria :: "entry list" where
  "bacteria =
    [\<lparr>name = ''sfGFP'', hex = ''#1fea5c'', rgb = (31, 234, 92)\<rparr>,
     \<lparr>name = ''mRFP1'', hex = ''#8f2438'', rgb = (143, 36, 56)\<rparr>,
     \<lparr>name = ''mKO2'', hex = ''#b39223'', rgb = (179, 146, 35)\<rparr>,
     \<lparr>name = ''Venus'', hex = ''#6ad500'', rgb = (106, 213, 0)\<rparr>,
     \<lparr>name = ''Azurite'', hex = ''#3867ae'', rgb = (56, 103, 174)\<rparr>,
     \<lparr>name = ''mClover3'', hex = ''#409945'', rgb = (64, 153, 69)\<rparr>,
     \<lparr>name = ''mJuniper'', hex = ''#1c978d'', rgb = (28, 151, 141)\<rparr>,
     \<lparr>name = ''mTurquoise2'', hex = ''#13AEA7'', rgb = (19, 174, 167)\<rparr>,
     \<lparr>name = ''Electra2'', hex = ''#1C58C6'', rgb = (28, 88, 198)\<rparr>,
     \<lparr>name = ''mWasabi'', hex = ''#009349'', rgb = (0, 147, 73)\<rparr>,
     \<lparr>name = ''mScarlet_I'', hex = ''#b9474b'', rgb = (185, 71, 75)\<rparr>]"

text \<open>The palette of \<^verbatim>\<open>src/server.js\<close> and of the one-shot revision: entry 0 is white.\<close>

definition PALETTE :: "entry list" where
  "PALETTE = \<lparr>name = ''erase'', hex = ''#ffffff'', rgb = (255, 255, 255)\<rparr> # bacteria"

text \<open>The palette of the dark revision: entry 0 is black.\<close>

definition PALETTE_dark :: "entry list" where
  "PALETTE_dark = \<lparr>name = ''empty'', hex = ''#000000'', rgb = (0, 0, 0)\<rparr> # bacteria"

text \<open>
  A channel value read from the raw pixel buffer is a byte, or \<^verbatim>\<open>undefined\<close> when the
  read is past the end of the buffer (\<open>None\<close>). The numbers the classifier compares are
  finite, \<^verbatim>\<open>Infinity\<close> (the initial minimum) or \<^verbatim>\<open>NaN\<close> (arithmetic on
  \<^verbatim>\<open>undefined\<close>). \<^verbatim>\<open>Math.sqrt\<close> is taken as the real square root: its arguments
  here are integers between 0 and \<open>3 * 255\<^sup>2\<close>, which doubles hold exactly and on which
  the rounded square root is still strictly increasing, so that the comparisons of the
  program and of the model agree.
\<close>

type_synonym channel = "int option"

datatype jsnum = Num real | PosInf | NaN

fun js_less :: "jsnum \<Rightarrow> jsnum \<Rightarrow> bool" where
  "js_less (Num a) (Num b) = (a < b)"
| "js_less (Num a) PosInf = True"
| "js_less _ _ = False"

fun colorDistance :: "channel \<Rightarrow> channel \<Rightarrow> channel \<Rightarrow> int \<Rightarrow> int \<Rightarrow> int \<Rightarrow> jsnum" where
  "colorDistance (Some r1) (Some g1) (Some b1) r2 g2 b2 =
     Num (sqrt (real_of_int ((r1 - r2)\<^sup>2 + (g1 - g2)\<^sup>2 + (b1 - b2)\<^sup>2)))"
| "colorDistance _ _ _ _ _ _ = NaN"

text \<open>
  One pass of the loop body \<^verbatim>\<open>if (dist < minDist) { minDist = dist; closest = i; }\<close>
  on the loop state \<open>(minDist, closest)\<close>.
\<close>

definition closer :: "entry list \<Rightarrow> channel \<Rightarrow> channel \<Rightarrow> channel \<Rightarrow> nat \<Rightarrow> jsnum \<times> nat \<Rightarrow> jsnum \<times> nat" where
  "closer pal r g b i st =
     (case rgb (pal ! i) of (pr, pg, pb) \<Rightarrow>
        let dist = colorDistance r g b pr pg pb
        in if js_less dist (fst st) then (dist, i) else st)"

text \<open>
  The loop \<^verbatim>\<open>for (let i = lo; i < PALETTE.length; i++)\<close> started with
  \<^verbatim>\<open>minDist = Infinity, closest = 0\<close>; it returns \<^verbatim>\<open>closest\<close>.
\<close>

definition nearest_from :: "nat \<Rightarrow> entry list \<Rightarrow> channel \<Rightarrow> channel \<Rightarrow> channel \<Rightarrow> nat" where
  "nearest_from lo pal r g b = snd (fold (closer pal r g b) [lo..<length pal] (PosInf, 0))"

definition findClosestColor :: "channel \<Rightarrow> channel \<Rightarrow> channel \<Rightarrow> nat" where
  "findClosestColor r g b = nearest_from 0 PALETTE r g b"

text \<open>The Euclidean distance in RGB space that the specification speaks of.\<close>

definition euclidean :: "int \<times> int \<times> int \<Rightarrow> int \<times> int \<times> int \<Rightarrow> real" where
  "euclidean p q =
     (case p of (r1, g1, b1) \<Rightarrow> case q of (r2, g2, b2) \<Rightarrow>
        sqrt (real_of_int ((r1 - r2)\<^sup>2 + (g1 - g2)\<^sup>2 + (b1 - b2)\<^sup>2)))"

section \<open>Errors, actions on the browser, decimal numerals\<close>

text \<open>
  The calls the program makes on the headless browser. A run of \<open>drawAndPublish\<close> is
  observed as the list of these calls, in the order they are made.
\<close>

datatype action =
    Launch
  | NewPage
  | SetViewport
  | Goto
  | QueryCells
  | QuerySwatches
  | ClickSwatch nat
  | ClickCell nat
  | QueryButtons
  | ReadText nat
  | BoundingBox nat
  | ClickButton nat
  | Evaluate
  | QueryTitleInput
  | ClickTitle
  | TypeTitle string
  | QueryLinks
  | ReadHref nat
  | Close

text \<open>
  \<open>Error msg\<close> is \<^verbatim>\<open>new Error(msg)\<close> raised by the program itself; \<open>TypeError\<close> is a
  property read on \<^verbatim>\<open>undefined\<close>; \<open>ActionFailed\<close> is a browser call that rejects;
  \<open>TransportError\<close> is an \<^verbatim>\<open>'error'\<close> event of the HTTP client.
\<close>

datatype error =
    Error string
  | TypeError
  | ActionFailed action
  | TransportError string

definition digit :: "nat \<Rightarrow> char" where
  "digit n = ''0123456789'' ! n"

function show_nat :: "nat \<Rightarrow> string" where
  "show_nat n = (if n < 10 then [digit n] else show_nat (n div 10) @ [digit (n mod 10)])"
  by pat_completeness auto
termination
  by (relation "measure id") auto

declare show_nat.simps [simp del]

text \<open>A number in a template literal, \<^verbatim>\<open>`${n}`\<close>, for an integer \<open>n\<close>.\<close>

definition show_int :: "int \<Rightarrow> string" where
  "show_int i = (if i < 0 then CHR ''-'' # show_nat (nat (- i)) else show_nat (nat i))"

section \<open>Image acquisition: the redirect-following fetch\<close>

text \<open>
  The network is a parameter. \<open>client_get\<close> is \<^verbatim>\<open>https.get\<close> or \<^verbatim>\<open>http.get\<close>:
  it yields a response or an \<^verbatim>\<open>'error'\<close> event. A response has its status code, its
  \<^verbatim>\<open>location\<close> header if any, and its body stream, which ends with the chunks
  concatenated or with an \<^verbatim>\<open>'error'\<close> event. \<open>url_href base loc\<close> is
  \<^verbatim>\<open>new URL(loc, base).href\<close>, \<open>None\<close> when the constructor throws.
\<close>

datatype client = Https | Http

record response =
  statusCode :: int
  location :: "string option"
  stream :: "error + 8 word list"

record web =
  client_get :: "client \<Rightarrow> string \<Rightarrow> error + response"
  url_href :: "string \<Rightarrow> string \<Rightarrow> string option"

text \<open>
  How the promise returned by \<open>fetchImage\<close> ends. An exception thrown inside the response
  callback is not caught by the promise: it stays \<open>Pending\<close>.
\<close>

datatype 'a promise = Resolve 'a | Reject error | Pending

definition client_for :: "string \<Rightarrow> client" where
  "client_for url = (if prefix ''https'' url then Https else Http)"

text \<open>
  \<^verbatim>\<open>res.statusCode >= 300 && res.statusCode < 400 && res.headers.location\<close>: an absent
  header and the empty string are falsy.
\<close>

definition is_redirect :: "response \<Rightarrow> bool" where
  "is_redirect res =
     (300 \<le> statusCode res \<and> statusCode res < 400 \<and>
      (case location res of None \<Rightarrow> False | Some loc \<Rightarrow> loc \<noteq> []))"

definition newUrl :: "web \<Rightarrow> string \<Rightarrow> response \<Rightarrow> string option" where
  "newUrl w url res =
     (case location res of
        None \<Rightarrow> None
      | Some loc \<Rightarrow> if prefix ''http'' loc then Some loc else url_href w url loc)"

function fetchImage :: "web \<Rightarrow> string \<Rightarrow> int \<Rightarrow> 8 word list promise" where
  "fetchImage w url maxRedirects =
     (if maxRedirects \<le> 0 then Reject (Error ''Too many redirects'')
      else
        case client_get w (client_for url) url of
          Inl e \<Rightarrow> Reject e
        | Inr res \<Rightarrow>
            if is_redirect res then
              (case newUrl w url res of
                 None \<Rightarrow> Pending
               | Some u \<Rightarrow> fetchImage w u (maxRedirects - 1))
            else if statusCode res \<noteq> 200 then Reject (Error (''HTTP '' @ show_int (statusCode res)))
            else
              (case stream res of
                 Inl e \<Rightarrow> Reject e
               | Inr chunks \<Rightarrow> Resolve chunks))"
  by pat_completeness auto
termination
  by (relation "measure (\<lambda>(w, url, maxRedirects). nat maxRedirects)") auto

declare fetchImage.simps [simp del]

text \<open>The default argument \<^verbatim>\<open>maxRedirects = 5\<close>, as \<open>generateImage\<close> calls it.\<close>

definition fetchImage_default :: "web \<Rightarrow> string \<Rightarrow> 8 word list promise" where
  "fetchImage_default w url = fetchImage w url 5"

text \<open>
  \<open>redirects_to w u v\<close>: the request of \<open>u\<close> is answered by a redirect whose target is
  \<open>v\<close>. \<open>redirect_chain w us\<close>: each URL of \<open>us\<close> redirects to the next one.
\<close>

definition redirects_to :: "web \<Rightarrow> string \<Rightarrow> string \<Rightarrow> bool" where
  "redirects_to w u v =
     (case client_get w (client_for u) u of
        Inl e \<Rightarrow> False
      | Inr res \<Rightarrow> is_redirect res \<and> newUrl w u res = Some v)"

fun redirect_chain :: "web \<Rightarrow> string list \<Rightarrow> bool" where
  "redirect_chain w (u # v # us) = (redirects_to w u v \<and> redirect_chain w (v # us))"
| "redirect_chain w us = True"

text \<open>\<open>terminal w u res\<close>: the request of \<open>u\<close> is answered by \<open>res\<close>, which is no redirect.\<close>

definition terminal :: "web \<Rightarrow> string \<Rightarrow> response \<Rightarrow> bool" where
  "terminal w u res = (client_get w (client_for u) u = Inr res \<and> \<not> is_redirect res)"

text \<open>A small network used to exercise the fetch at concrete inputs.\<close>

definition demo_web :: web where
  "demo_web =
     \<lparr>client_get = (\<lambda>c url.
        if url = ''https://img.example/a'' then
          Inr \<lparr>statusCode = 302, location = Some ''https://cdn.example/b'', stream = Inr []\<rparr>
        else if url = ''https://cdn.example/b'' then
          Inr \<lparr>statusCode = 301, location = Some ''/c'', stream = Inr []\<rparr>
        else if url = ''https://cdn.example/c'' then
          Inr \<lparr>statusCode = 307, location = Some ''http://cdn.example/d'', stream = Inr []\<rparr>
        else if url = ''http://cdn.example/d'' then
          Inr \<lparr>statusCode = 200, location = None, stream = Inr [137, 80, 78, 71]\<rparr>
        else if url = ''http://loop.example/'' then
          Inr \<lparr>statusCode = 302, location = Some ''http://loop.example/'', stream = Inr []\<rparr>
        else if url = ''http://img.example/made'' then
          Inr \<lparr>statusCode = 201, location = None, stream = Inr [137, 80]\<rparr>
        else
          Inr \<lparr>statusCode = 404, location = None, stream = Inr []\<rparr>),
      url_href = (\<lambda>base loc.
        if base = ''https://cdn.example/b'' \<and> loc = ''/c'' then Some ''https://cdn.example/c''
        else None)\<rparr>"

section \<open>Grid quantizer\<close>

text \<open>
  \<open>sharp\<close> decodes and resizes the image outside the program; the quantizer is embedded
  from the raw buffer \<open>data\<close> and the channel count \<^verbatim>\<open>info.channels\<close> that it yields.
  \<open>data_at\<close> is \<^verbatim>\<open>data[i]\<close>: a byte, or \<^verbatim>\<open>undefined\<close> past the end.
\<close>

type_synonym grid = "nat list list"

definition data_at :: "8 word list \<Rightarrow> nat \<Rightarrow> channel" where
  "data_at data i = (if i < length data then Some (uint (data ! i)) else None)"

text \<open>\<^verbatim>\<open>c > k\<close> on a channel value: false on \<^verbatim>\<open>undefined\<close>.\<close>

definition exceeds :: "channel \<Rightarrow> int \<Rightarrow> bool" where
  "exceeds c k = (case c of None \<Rightarrow> False | Some v \<Rightarrow> k < v)"

definition imageToGrid :: "8 word list \<Rightarrow> nat \<Rightarrow> grid" where
  "imageToGrid data channels =
     map (\<lambda>y. map (\<lambda>x.
        let idx = (y * GRID_COLS + x) * channels;
            r = data_at data idx; g = data_at data (idx + 1); b = data_at data (idx + 2)
        in if exceeds r 240 \<and> exceeds g 240 \<and> exceeds b 240 then 0
           else findClosestColor r g b)
       [0..<GRID_COLS]) [0..<GRID_ROWS]"

text \<open>\<^verbatim>\<open>(r + g + b) / 3\<close> of the dark revision.\<close>

fun brightness :: "channel \<Rightarrow> channel \<Rightarrow> channel \<Rightarrow> jsnum" where
  "brightness (Some r) (Some g) (Some b) = Num (real_of_int (r + g + b) / 3)"
| "brightness _ _ _ = NaN"

definition imageToGrid_dark :: "8 word list \<Rightarrow> nat \<Rightarrow> grid" where
  "imageToGrid_dark data channels =
     map (\<lambda>y. map (\<lambda>x.
        let idx = (y * GRID_COLS + x) * channels;
            r = data_at data idx; g = data_at data (idx + 1); b = data_at data (idx + 2)
        in if js_less (brightness r g b) (Num 30) then 0
           else nearest_from 1 PALETTE_dark r g b)
       [0..<GRID_COLS]) [0..<GRID_ROWS]"

definition imageToGrid_oneshot :: "8 word list \<Rightarrow> nat \<Rightarrow> grid" where
  "imageToGrid_oneshot data channels =
     map (\<lambda>y. map (\<lambda>x.
        let idx = (y * GRID_COLS + x) * channels;
            r = data_at data idx; g = data_at data (idx + 1); b = data_at data (idx + 2)
        in findClosestColor r g b)
       [0..<GRID_COLS]) [0..<GRID_ROWS]"

text \<open>A grid of the data model: \<open>GRID_ROWS\<close> rows of \<open>GRID_COLS\<close> palette indices.\<close>

definition well_formed :: "grid \<Rightarrow> bool" where
  "well_formed grid =
     (length grid = GRID_ROWS \<and>
      list_all (\<lambda>row. length row = GRID_COLS \<and> list_all (\<lambda>c. c < length PALETTE) row) grid)"

section \<open>Preview renderer\<close>

text \<open>
  A \<^verbatim>\<open>for\<close> loop over \<open>is\<close> whose body updates the loop state or throws; a throw
  ends the loop.
\<close>

fun for_each :: "'a list \<Rightarrow> ('a \<Rightarrow> 's \<Rightarrow> error + 's) \<Rightarrow> 's \<Rightarrow> error + 's" where
  "for_each [] body s = Inr s"
| "for_each (i # rest) body s =
     (case body i s of Inl e \<Rightarrow> Inl e | Inr s' \<Rightarrow> for_each rest body s')"

definition cellSize :: nat where
  "cellSize = 10"

definition svg_open :: string where
  \<open>svg_open = ''<svg xmlns="http://www.w3.org/2000/svg" width="'' @ show_nat (GRID_COLS * cellSize)
     @ ''" height="'' @ show_nat (GRID_ROWS * cellSize) @ ''">''\<close>

definition backdrop :: string where
  \<open>backdrop = ''<rect width="100%" height="100%" fill="#000000"/>''\<close>

definition rect_markup :: "nat \<Rightarrow> nat \<Rightarrow> string \<Rightarrow> string" where
  \<open>rect_markup x y color =
     ''<rect x="'' @ show_nat (x * cellSize) @ ''" y="'' @ show_nat (y * cellSize)
     @ ''" width="'' @ show_nat cellSize @ ''" height="'' @ show_nat cellSize
     @ ''" fill="'' @ color @ ''"/>''\<close>

text \<open>
  \<^verbatim>\<open>grid[y][x]\<close>: a \<open>TypeError\<close> when row \<open>y\<close> is missing, \<^verbatim>\<open>undefined\<close> (\<open>None\<close>)
  when the row is too short.
\<close>

definition grid_at :: "grid \<Rightarrow> nat \<Rightarrow> nat \<Rightarrow> error + nat option" where
  "grid_at grid y x =
     (if y < length grid
      then Inr (if x < length (grid ! y) then Some (grid ! y ! x) else None)
      else Inl TypeError)"

text \<open>\<^verbatim>\<open>PALETTE[v].hex\<close>: a \<open>TypeError\<close> when \<open>v\<close> is no index of the palette.\<close>

definition palette_hex :: "entry list \<Rightarrow> nat option \<Rightarrow> error + string" where
  "palette_hex pal v =
     (case v of
        None \<Rightarrow> Inl TypeError
      | Some c \<Rightarrow> if c < length pal then Inr (hex (pal ! c)) else Inl TypeError)"

definition gridToSvg :: "grid \<Rightarrow> error + string" where
  "gridToSvg grid =
     (case for_each [0..<GRID_ROWS] (\<lambda>y. for_each [0..<GRID_COLS] (\<lambda>x svg.
             case grid_at grid y x of
               Inl e \<Rightarrow> Inl e
             | Inr v \<Rightarrow>
                 (case palette_hex PALETTE v of
                    Inl e \<Rightarrow> Inl e
                  | Inr color \<Rightarrow> Inr (svg @ rect_markup x y color))))
           svg_open
      of Inl e \<Rightarrow> Inl e
       | Inr svg \<Rightarrow> Inr (svg @ ''</svg>''))"

definition gridToSvg_dark :: "grid \<Rightarrow> error + string" where
  "gridToSvg_dark grid =
     (case for_each [0..<GRID_ROWS] (\<lambda>y. for_each [0..<GRID_COLS] (\<lambda>x svg.
             case grid_at grid y x of
               Inl e \<Rightarrow> Inl e
             | Inr colorIdx \<Rightarrow>
                 if (case colorIdx of None \<Rightarrow> False | Some c \<Rightarrow> 0 < c) then
                   (case palette_hex PALETTE_dark colorIdx of
                      Inl e \<Rightarrow> Inl e
                    | Inr color \<Rightarrow> Inr (svg @ rect_markup x y color))
                 else Inr svg))
           (svg_open @ backdrop)
      of Inl e \<Rightarrow> Inl e
       | Inr svg \<Rightarrow> Inr (svg @ ''</svg>''))"

text \<open>
  The rectangles of a preview as data: position, size and fill, and the markup of one
  rectangle. \<open>all_cells\<close> lists the cells \<open>(row, col)\<close> in scan order; \<open>cell_rect\<close> is the
  rectangle the contract asks for a cell.
\<close>

record rect =
  rect_x :: nat
  rect_y :: nat
  rect_width :: nat
  rect_height :: nat
  rect_fill :: string

definition render_rect :: "rect \<Rightarrow> string" where
  \<open>render_rect r =
     ''<rect x="'' @ show_nat (rect_x r) @ ''" y="'' @ show_nat (rect_y r)
     @ ''" width="'' @ show_nat (rect_width r) @ ''" height="'' @ show_nat (rect_height r)
     @ ''" fill="'' @ rect_fill r @ ''"/>''\<close>

definition all_cells :: "(nat \<times> nat) list" where
  "all_cells = concat (map (\<lambda>y. map (\<lambda>x. (y, x)) [0..<GRID_COLS]) [0..<GRID_ROWS])"

definition cell_rect :: "entry list \<Rightarrow> grid \<Rightarrow> nat \<times> nat \<Rightarrow> rect" where
  "cell_rect pal grid cell =
     (case cell of (row, col) \<Rightarrow>
        \<lparr>rect_x = col * 10, rect_y = row * 10, rect_width = 10, rect_height = 10,
         rect_fill = hex (pal ! (grid ! row ! col))\<rparr>)"

definition painted :: "grid \<Rightarrow> nat \<times> nat \<Rightarrow> bool" where
  "painted grid cell = (case cell of (row, col) \<Rightarrow> grid ! row ! col \<noteq> 0)"

definition at_cell :: "nat \<times> nat \<Rightarrow> rect \<Rightarrow> bool" where
  "at_cell cell r = (case cell of (row, col) \<Rightarrow> rect_x r = col * 10 \<and> rect_y r = row * 10)"

text \<open>A grid with one painted cell, colour 3 in the top left corner, used at concrete inputs.\<close>

definition corner_grid :: grid where
  "corner_grid = (3 # replicate 47 0) # replicate 31 (replicate 48 0)"

section \<open>Canvas replay engine\<close>

text \<open>
  The target page is a parameter: what each query finds, and which browser calls reject.
  \<open>ncells\<close> is the number of cell controls found; \<open>nswatches c\<close> the number of colour
  selectors found by the query made while colour \<open>c\<close> is painted; \<open>buttons_publish\<close> and
  \<open>buttons_confirm\<close> the buttons in document order when the first and the second
  \<^verbatim>\<open>Publish\<close> are looked for, each with its text and the \<^verbatim>\<open>y\<close> of its bounding box
  (\<open>None\<close> for \<^verbatim>\<open>null\<close>); \<open>titleInput\<close> whether the title input is found; \<open>links\<close> the
  \<^verbatim>\<open>href\<close> of every hyperlink at the end. \<open>throws a\<close> tells whether the call \<open>a\<close>
  rejects; it depends on the call alone, not on when it is made. The settle delays and
  the console output are left out.
\<close>

record button =
  textContent :: string
  box_y :: "real option"

record page =
  ncells :: nat
  nswatches :: "nat \<Rightarrow> nat"
  buttons_publish :: "button list"
  buttons_confirm :: "button list"
  titleInput :: bool
  links :: "string list"
  throws :: "action \<Rightarrow> bool"

text \<open>
  A run ends with a value or a thrown error and is observed as the browser calls made,
  a rejected call included.
\<close>

type_synonym 'a run = "(error + 'a) \<times> action list"

definition ret :: "'a \<Rightarrow> 'a run" where
  "ret v = (Inr v, [])"

definition raise :: "error \<Rightarrow> 'a run" where
  "raise e = (Inl e, [])"

definition seq :: "'a run \<Rightarrow> ('a \<Rightarrow> 'b run) \<Rightarrow> 'b run" where
  "seq m f =
     (case fst m of
        Inl e \<Rightarrow> (Inl e, snd m)
      | Inr v \<Rightarrow> (fst (f v), snd m @ snd (f v)))"

definition try_catch :: "'a run \<Rightarrow> (error \<Rightarrow> 'a run) \<Rightarrow> 'a run" where
  "try_catch m handler =
     (case fst m of
        Inl e \<Rightarrow> (fst (handler e), snd m @ snd (handler e))
      | Inr v \<Rightarrow> m)"

definition act :: "page \<Rightarrow> action \<Rightarrow> unit run" where
  "act pg a = (if throws pg a then Inl (ActionFailed a) else Inr (), [a])"

text \<open>A click made by a script inside the page: observed, never rejected by itself.\<close>

definition dom_click :: "nat \<Rightarrow> unit run" where
  "dom_click k = (Inr (), [ClickButton k])"

fun run_each :: "'a list \<Rightarrow> ('a \<Rightarrow> unit run) \<Rightarrow> unit run" where
  "run_each [] body = ret ()"
| "run_each (i # rest) body = seq (body i) (\<lambda>_. run_each rest body)"

subsection \<open>Paint\<close>

text \<open>The two inner loops that collect \<^verbatim>\<open>pixels\<close> for one colour.\<close>

definition pixels_of :: "grid \<Rightarrow> nat \<Rightarrow> error + nat list" where
  "pixels_of grid colorIdx =
     for_each [0..<GRID_ROWS] (\<lambda>y. for_each [0..<GRID_COLS] (\<lambda>x pixels.
         case grid_at grid y x of
           Inl e \<Rightarrow> Inl e
         | Inr v \<Rightarrow> Inr (if v = Some colorIdx then pixels @ [y * GRID_COLS + x] else pixels)))
       []"

definition paint_color :: "page \<Rightarrow> grid \<Rightarrow> nat \<Rightarrow> unit run" where
  "paint_color pg grid colorIdx =
     (case pixels_of grid colorIdx of
        Inl e \<Rightarrow> raise e
      | Inr pixels \<Rightarrow>
          if pixels = [] then ret ()
          else
            seq (act pg QuerySwatches) (\<lambda>_.
            seq (if colorIdx < nswatches pg colorIdx then act pg (ClickSwatch colorIdx) else ret ()) (\<lambda>_.
            run_each pixels (\<lambda>idx. if idx < ncells pg then act pg (ClickCell idx) else ret ()))))"

definition paint :: "entry list \<Rightarrow> page \<Rightarrow> grid \<Rightarrow> unit run" where
  "paint pal pg grid = run_each [1..<length pal] (paint_color pg grid)"

subsection \<open>Publish, title, confirm, result\<close>

definition is_publish :: "button \<Rightarrow> bool" where
  "is_publish btn = sublist ''Publish'' (textContent btn)"

text \<open>
  \<^verbatim>\<open>src/server.js\<close>, both publish steps: scan the buttons, click the first whose text
  includes \<^verbatim>\<open>Publish\<close> and \<^verbatim>\<open>break\<close>.
\<close>

fun click_first :: "page \<Rightarrow> button list \<Rightarrow> nat \<Rightarrow> unit run" where
  "click_first pg [] k = ret ()"
| "click_first pg (btn # rest) k =
     seq (act pg (ReadText k)) (\<lambda>_.
       if is_publish btn then act pg (ClickButton k) else click_first pg rest (Suc k))"

definition press_publish :: "page \<Rightarrow> button list \<Rightarrow> unit run" where
  "press_publish pg btns = seq (act pg QueryButtons) (\<lambda>_. click_first pg btns 0)"

definition confirm_publish :: "page \<Rightarrow> unit run" where
  "confirm_publish pg = press_publish pg (buttons_confirm pg)"

text \<open>The indices, in document order, of the buttons whose text includes \<^verbatim>\<open>Publish\<close>.\<close>

definition matching :: "button list \<Rightarrow> nat list" where
  "matching btns = filter (\<lambda>k. is_publish (btns ! k)) [0..<length btns]"

text \<open>
  The dark revision runs a script in the page: \<^verbatim>\<open>btns.find(...)\<close> for the first step,
  \<^verbatim>\<open>btns.filter(...)\<close> and the last of them for the confirmation. A rejected
  \<^verbatim>\<open>page.evaluate\<close> is taken to have done nothing in the page.
\<close>

definition press_publish_dark :: "page \<Rightarrow> button list \<Rightarrow> unit run" where
  "press_publish_dark pg btns =
     seq (act pg Evaluate) (\<lambda>_.
       case matching btns of [] \<Rightarrow> ret () | pub # _ \<Rightarrow> dom_click pub)"

definition confirm_publish_dark :: "page \<Rightarrow> unit run" where
  "confirm_publish_dark pg =
     seq (act pg Evaluate) (\<lambda>_.
       let pubs = matching (buttons_confirm pg)
       in if 1 < length pubs then dom_click (pubs ! (length pubs - 1))
          else if length pubs = 1 then dom_click (pubs ! 0)
          else ret ())"

text \<open>
  The one-shot revision, both publish steps: among the buttons whose text includes
  \<^verbatim>\<open>Publish\<close> keep the one whose box has the greatest \<^verbatim>\<open>y\<close>, starting from
  \<^verbatim>\<open>maxY = -1\<close>; throw when none is kept. The loop state is \<open>(maxY, publishBtn)\<close>.
\<close>

fun lowest_scan :: "page \<Rightarrow> button list \<Rightarrow> nat \<Rightarrow> real \<times> nat option \<Rightarrow> (real \<times> nat option) run" where
  "lowest_scan pg [] k st = ret st"
| "lowest_scan pg (btn # rest) k st =
     seq (act pg (ReadText k)) (\<lambda>_.
       if is_publish btn then
         seq (act pg (BoundingBox k)) (\<lambda>_.
           lowest_scan pg rest (Suc k)
             (case box_y btn of
                None \<Rightarrow> st
              | Some y \<Rightarrow> if fst st < y then (y, Some k) else st))
       else lowest_scan pg rest (Suc k) st)"

definition press_lowest :: "page \<Rightarrow> button list \<Rightarrow> string \<Rightarrow> unit run" where
  "press_lowest pg btns msg =
     seq (act pg QueryButtons) (\<lambda>_.
     seq (lowest_scan pg btns 0 (- 1, None)) (\<lambda>st.
       case snd st of
         None \<Rightarrow> raise (Error msg)
       | Some k \<Rightarrow> act pg (ClickButton k)))"

definition confirm_publish_oneshot :: "page \<Rightarrow> unit run" where
  "confirm_publish_oneshot pg =
     press_lowest pg (buttons_confirm pg) ''Modal publish button not found''"

text \<open>\<^verbatim>\<open>if (titleInput && title)\<close>: an absent title and the empty string are falsy.\<close>

definition supply_title :: "page \<Rightarrow> string option \<Rightarrow> unit run" where
  "supply_title pg title =
     seq (act pg QueryTitleInput) (\<lambda>_.
       case title of
         None \<Rightarrow> ret ()
       | Some t \<Rightarrow>
           if titleInput pg \<and> t \<noteq> [] then
             seq (act pg ClickTitle) (\<lambda>_. act pg (TypeTitle t))
           else ret ())"

text \<open>\<^verbatim>\<open>if (titleInput)\<close> and \<^verbatim>\<open>title || 'Untitled'\<close> of the dark revision.\<close>

definition supply_title_dark :: "page \<Rightarrow> string option \<Rightarrow> unit run" where
  "supply_title_dark pg title =
     seq (act pg QueryTitleInput) (\<lambda>_.
       if titleInput pg then
         seq (act pg ClickTitle) (\<lambda>_.
           act pg (TypeTitle (case title of
                                None \<Rightarrow> ''Untitled''
                              | Some t \<Rightarrow> if t \<noteq> [] then t else ''Untitled'')))
       else ret ())"

definition is_gallery :: "string \<Rightarrow> string \<Rightarrow> bool" where
  "is_gallery host href = (href \<noteq> [] \<and> sublist host href)"

fun first_link :: "page \<Rightarrow> string \<Rightarrow> string list \<Rightarrow> nat \<Rightarrow> string option run" where
  "first_link pg host [] k = ret None"
| "first_link pg host (href # rest) k =
     seq (act pg (ReadHref k)) (\<lambda>_.
       if is_gallery host href then ret (Some href) else first_link pg host rest (Suc k))"

definition scrape :: "page \<Rightarrow> string \<Rightarrow> string option run" where
  "scrape pg host = seq (act pg QueryLinks) (\<lambda>_. first_link pg host (links pg) 0)"

definition scrape_dark :: "page \<Rightarrow> string option run" where
  "scrape_dark pg =
     seq (act pg Evaluate) (\<lambda>_. ret (find (is_gallery ''opentrons-art'') (links pg)))"

subsection \<open>The whole replay\<close>

text \<open>
  Each \<open>replay\<close> is the body of the \<^verbatim>\<open>try\<close> block; the result is the \<^verbatim>\<open>url\<close> of
  \<^verbatim>\<open>{ success: true, url }\<close>, \<open>None\<close> for \<^verbatim>\<open>null\<close>. \<open>drawAndPublish\<close> launches the
  browser and opens the page before the \<^verbatim>\<open>try\<close>, and closes the browser in the
  \<^verbatim>\<open>catch\<close> before it throws the error again.
\<close>

definition replay :: "page \<Rightarrow> grid \<Rightarrow> string option \<Rightarrow> string option run" where
  "replay pg grid title =
     seq (act pg Goto) (\<lambda>_.
     seq (act pg QueryCells) (\<lambda>_.
     seq (paint PALETTE pg grid) (\<lambda>_.
     seq (press_publish pg (buttons_publish pg)) (\<lambda>_.
     seq (supply_title pg title) (\<lambda>_.
     seq (confirm_publish pg) (\<lambda>_.
     seq (scrape pg ''opentrons-art'') (\<lambda>url.
     seq (act pg Close) (\<lambda>_.
     ret url))))))))"

definition drawAndPublish :: "page \<Rightarrow> grid \<Rightarrow> string option \<Rightarrow> string option run" where
  "drawAndPublish pg grid title =
     seq (act pg Launch) (\<lambda>_.
     seq (act pg NewPage) (\<lambda>_.
     try_catch (replay pg grid title)
       (\<lambda>err. seq (act pg Close) (\<lambda>_. raise err))))"

definition replay_dark :: "page \<Rightarrow> grid \<Rightarrow> string option \<Rightarrow> string option run" where
  "replay_dark pg grid title =
     seq (act pg Goto) (\<lambda>_.
     seq (act pg QueryCells) (\<lambda>_.
     seq (if ncells pg = 0
          then raise (Error ''No grid cells found - page may not have loaded correctly'')
          else ret ()) (\<lambda>_.
     seq (paint PALETTE_dark pg grid) (\<lambda>_.
     seq (press_publish_dark pg (buttons_publish pg)) (\<lambda>_.
     seq (supply_title_dark pg title) (\<lambda>_.
     seq (confirm_publish_dark pg) (\<lambda>_.
     seq (scrape_dark pg) (\<lambda>url.
     seq (act pg Close) (\<lambda>_.
     ret url)))))))))"

definition drawAndPublish_dark :: "page \<Rightarrow> grid \<Rightarrow> string option \<Rightarrow> string option run" where
  "drawAndPublish_dark pg grid title =
     seq (act pg Launch) (\<lambda>_.
     seq (act pg NewPage) (\<lambda>_.
     seq (act pg SetViewport) (\<lambda>_.
     try_catch (replay_dark pg grid title)
       (\<lambda>err. seq (act pg Close) (\<lambda>_. raise err)))))"

definition replay_oneshot :: "page \<Rightarrow> grid \<Rightarrow> string option \<Rightarrow> string option run" where
  "replay_oneshot pg grid title =
     seq (act pg Goto) (\<lambda>_.
     seq (act pg QueryCells) (\<lambda>_.
     seq (paint PALETTE pg grid) (\<lambda>_.
     seq (press_lowest pg (buttons_publish pg) ''Publish button not found'') (\<lambda>_.
     seq (supply_title pg title) (\<lambda>_.
     seq (confirm_publish_oneshot pg) (\<lambda>_.
     seq (scrape pg ''opentrons-art.rcdonovan.com'') (\<lambda>url.
     seq (act pg Close) (\<lambda>_.
     ret url))))))))"

definition drawAndPublish_oneshot :: "page \<Rightarrow> grid \<Rightarrow> string option \<Rightarrow> string option run" where
  "drawAndPublish_oneshot pg grid title =
     seq (act pg Launch) (\<lambda>_.
     seq (act pg NewPage) (\<lambda>_.
     try_catch (replay_oneshot pg grid title)
       (\<lambda>err. seq (act pg Close) (\<lambda>_. raise err))))"

text \<open>What a run is asked about: the paint calls, the buttons clicked, the closes.\<close>

fun is_paint :: "action \<Rightarrow> bool" where
  "is_paint (ClickSwatch c) = True"
| "is_paint (ClickCell i) = True"
| "is_paint a = False"

fun clicked_buttons :: "action list \<Rightarrow> nat list" where
  "clicked_buttons [] = []"
| "clicked_buttons (ClickButton k # rest) = k # clicked_buttons rest"
| "clicked_buttons (a # rest) = clicked_buttons rest"

definition closes :: "action list \<Rightarrow> nat" where
  "closes tr = length (filter (\<lambda>a. a = Close) tr)"

text \<open>The positions \<open>y * GRID_COLS + x\<close>, in scan order, of the cells that hold \<open>c\<close>.\<close>

definition cells_of :: "grid \<Rightarrow> nat \<Rightarrow> nat list" where
  "cells_of grid c = map (\<lambda>cell. fst cell * GRID_COLS + snd cell)
                       (filter (\<lambda>cell. grid ! fst cell ! snd cell = c) all_cells)"

text \<open>\<open>avoids P r\<close>: the run \<open>r\<close> makes no call that satisfies \<open>P\<close>.\<close>

definition avoids :: "(action \<Rightarrow> bool) \<Rightarrow> 'a run \<Rightarrow> bool" where
  "avoids P r = (\<forall>a \<in> set (snd r). \<not> P a)"


text \<open>
  A page on which every control is found and no call rejects: 1536 cells, 12 selectors,
  a \<^verbatim>\<open>Publish\<close> button in the toolbar and, at the confirmation, a second one in the
  modal, the title input, and a gallery link.
\<close>

definition calm_page :: page where
  "calm_page =
     \<lparr>ncells = 1536,
      nswatches = (\<lambda>c. 12),
      buttons_publish = [\<lparr>textContent = ''Clear'', box_y = Some 40\<rparr>,
                         \<lparr>textContent = ''Publish'', box_y = Some 40\<rparr>],
      buttons_confirm = [\<lparr>textContent = ''Clear'', box_y = Some 40\<rparr>,
                         \<lparr>textContent = ''Publish'', box_y = Some 40\<rparr>,
                         \<lparr>textContent = ''Cancel'', box_y = Some 300\<rparr>,
                         \<lparr>textContent = ''Publish'', box_y = Some 300\<rparr>],
      titleInput = True,
      links = [''https://ginkgoartworks.com/about'', ''https://opentrons-art.rcdonovan.com/art/1''],
      throws = (\<lambda>a. False)\<rparr>"

text \<open>
  Two variations of that page: no cell control is found; \<^verbatim>\<open>browser.newPage()\<close>
  rejects.
\<close>

definition blank_page :: page where
  "blank_page = calm_page\<lparr>ncells := 0\<rparr>"

definition crash_page :: page where
  "crash_page = calm_page\<lparr>throws := (\<lambda>a. a = NewPage)\<rparr>"

text \<open>
  The selector calls made when no cell control is found and nothing stops the run: one
  for each colour that has a cell and whose selector is found.
\<close>

definition selector_only :: "page \<Rightarrow> grid \<Rightarrow> nat \<Rightarrow> action list" where
  "selector_only pg grid c =
     (if cells_of grid c \<noteq> [] \<and> c < nswatches pg c then [ClickSwatch c] else [])"

text \<open>
  The loop state \<open>(maxY, publishBtn)\<close> of the one-shot scan after the buttons \<open>btns\<close>,
  numbered from \<open>k\<close>, when no call rejects.
\<close>

fun lowest_from :: "button list \<Rightarrow> nat \<Rightarrow> real \<times> nat option \<Rightarrow> real \<times> nat option" where
  "lowest_from [] k st = st"
| "lowest_from (btn # rest) k st =
     lowest_from rest (Suc k)
       (if is_publish btn then
          (case box_y btn of
             None \<Rightarrow> st
           | Some y \<Rightarrow> if fst st < y then (y, Some k) else st)
        else st)"

section \<open>Job table\<close>

text \<open>
  The statuses are the strings \<^verbatim>\<open>'preview'\<close>, \<^verbatim>\<open>'processing'\<close>, \<^verbatim>\<open>'done'\<close> and
  \<^verbatim>\<open>'error'\<close>. A job is an object that the table and the completion callbacks of
  \<^verbatim>\<open>/publish\<close> share, so the jobs live in a heap and the table maps an id to a
  reference. \<open>job_url\<close> is \<open>None\<close> while the property is not set, \<open>Some None\<close> for
  \<^verbatim>\<open>null\<close>. An id is \<^verbatim>\<open>Date.now().toString(36)\<close>, which \<^verbatim>\<open>parseInt(id, 36)\<close> reads
  back; it is identified with that number of milliseconds. \<open>pending\<close> lists the
  references whose background \<open>drawAndPublish\<close> has not settled yet.
\<close>

datatype status = Preview | Processing | Done | Failed

record job =
  job_grid :: grid
  job_status :: status
  job_url :: "string option option"
  job_error :: "error option"

record server =
  heap :: "job list"
  jobs :: "nat \<rightharpoonup> nat"
  pending :: "nat list"

text \<open>
  What happens to the server: a \<^verbatim>\<open>/preview\<close> that produced a grid, at clock reading
  \<open>t\<close> for the id and \<open>now jid\<close> when the sweep examines the entry \<open>jid\<close>; a \<^verbatim>\<open>/preview\<close>
  that failed before the table was touched; a \<^verbatim>\<open>/publish\<close> of an id with a title; a
  \<^verbatim>\<open>/status\<close> of an id; the background publish of a reference settling with an error
  or a URL.
\<close>

datatype event =
    PreviewOk grid nat "nat \<Rightarrow> nat"
  | PreviewFailed
  | Publish nat "string option"
  | Status nat
  | Settled nat "error + string option"

text \<open>\<^verbatim>\<open>Date.now() - parseInt(id, 36) > 3600000\<close>\<close>

definition expired :: "nat \<Rightarrow> nat \<Rightarrow> bool" where
  "expired now jid = (int now - int jid > 3600000)"

fun step :: "server \<Rightarrow> event \<Rightarrow> server" where
  "step s (PreviewOk g t now) =
     (let r = length (heap s);
          table = (jobs s)(t \<mapsto> r)
      in s\<lparr>heap := heap s @ [\<lparr>job_grid = g, job_status = Preview, job_url = None, job_error = None\<rparr>],
           jobs := (\<lambda>jid. if expired (now jid) jid then None else table jid)\<rparr>)"
| "step s PreviewFailed = s"
| "step s (Publish jid title) =
     (case jobs s jid of
        None \<Rightarrow> s
      | Some r \<Rightarrow>
          s\<lparr>heap := (heap s)[r := (heap s ! r)\<lparr>job_status := Processing\<rparr>],
            pending := pending s @ [r]\<rparr>)"
| "step s (Status jid) = s"
| "step s (Settled r outcome) =
     (if r \<in> set (pending s) then
        s\<lparr>heap := (heap s)[r :=
              (case outcome of
                 Inr u \<Rightarrow> (heap s ! r)\<lparr>job_status := Done, job_url := Some u\<rparr>
               | Inl e \<Rightarrow> (heap s ! r)\<lparr>job_status := Failed, job_error := Some e\<rparr>)],
          pending := remove1 r (pending s)\<rparr>
      else s)"

definition start :: server where
  "start = \<lparr>heap = [], jobs = Map.empty, pending = []\<rparr>"

definition run :: "server \<Rightarrow> event list \<Rightarrow> server" where
  "run s evs = foldl step s evs"

text \<open>The body of \<^verbatim>\<open>/status\<close>: the job's status, URL and error, if the id is known.\<close>

definition status_reply :: "server \<Rightarrow> nat \<Rightarrow> (status \<times> string option option \<times> error option) option" where
  "status_reply s jid =
     (case jobs s jid of
        None \<Rightarrow> None
      | Some r \<Rightarrow> Some (job_status (heap s ! r), job_url (heap s ! r), job_error (heap s ! r)))"

text \<open>A clock that reads \<open>t\<close> at every entry of a sweep.\<close>

definition at_time :: "nat \<Rightarrow> nat \<Rightarrow> nat" where
  "at_time t jid = t"

text \<open>The table refers to jobs of the heap, and so do the pending completions.\<close>

definition consistent :: "server \<Rightarrow> bool" where
  "consistent s =
     ((\<forall>jid r. jobs s jid = Some r \<longrightarrow> r < length (heap s))
      \<and> (\<forall>r \<in> set (pending s). r < length (heap s)))"

section \<open>The nearest-colour classifier\<close>

lemma length_PALETTE: "length PALETTE = 12"
  by (simp add: PALETTE_def bacteria_def)

lemma length_PALETTE_dark: "length PALETTE_dark = 12"
  by (simp add: PALETTE_dark_def bacteria_def)

lemma closer_defined:
  "closer pal (Some r) (Some g) (Some b) i st =
     (if js_less (Num (euclidean (r, g, b) (rgb (pal ! i)))) (fst st)
      then (Num (euclidean (r, g, b) (rgb (pal ! i))), i) else st)"
  by (cases "rgb (pal ! i)") (simp add: closer_def euclidean_def)

text \<open>
  The loop invariant: after the indices \<open>lo..<n\<close> the state holds the first index of
  least distance among them, with that distance.
\<close>

lemma nearest_invariant:
  assumes "lo < n"
  shows "\<exists>c. fold (closer pal (Some r) (Some g) (Some b)) [lo..<n] (PosInf, 0)
             = (Num (euclidean (r, g, b) (rgb (pal ! c))), c)
           \<and> lo \<le> c \<and> c < n
           \<and> (\<forall>j. lo \<le> j \<and> j < n \<longrightarrow>
                  euclidean (r, g, b) (rgb (pal ! c)) \<le> euclidean (r, g, b) (rgb (pal ! j)))
           \<and> (\<forall>j. lo \<le> j \<and> j < c \<longrightarrow>
                  euclidean (r, g, b) (rgb (pal ! c)) < euclidean (r, g, b) (rgb (pal ! j)))"
  using assms
proof (induction n)
  case 0
  then show ?case by simp
next
  case (Suc n)
  let ?d = "\<lambda>j. euclidean (r, g, b) (rgb (pal ! j))"
  show ?case
  proof (cases "lo = n")
    case True
    have "fold (closer pal (Some r) (Some g) (Some b)) [lo..<Suc n] (PosInf, 0) = (Num (?d n), n)"
      using True by (simp add: closer_defined)
    moreover have "?d n \<le> ?d j" if "lo \<le> j" "j < Suc n" for j
    proof -
      from that True have "j = n" by simp
      then show ?thesis by simp
    qed
    ultimately show ?thesis
      using True by (intro exI [of _ n]) simp
  next
    case False
    with Suc.prems have "lo < n" by simp
    from Suc.IH [OF this] obtain c where
      st: "fold (closer pal (Some r) (Some g) (Some b)) [lo..<n] (PosInf, 0) = (Num (?d c), c)"
      and c: "lo \<le> c" "c < n"
      and least: "\<forall>j. lo \<le> j \<and> j < n \<longrightarrow> ?d c \<le> ?d j"
      and first: "\<forall>j. lo \<le> j \<and> j < c \<longrightarrow> ?d c < ?d j"
      by blast
    show ?thesis
    proof (cases "?d n < ?d c")
      case True
      have "fold (closer pal (Some r) (Some g) (Some b)) [lo..<Suc n] (PosInf, 0) = (Num (?d n), n)"
        using True \<open>lo < n\<close> by (simp add: st closer_defined)
      moreover have "\<forall>j. lo \<le> j \<and> j < Suc n \<longrightarrow> ?d n \<le> ?d j"
        using least True by (auto simp: less_Suc_eq intro: order_trans less_imp_le)
      moreover have "\<forall>j. lo \<le> j \<and> j < n \<longrightarrow> ?d n < ?d j"
        using least True by (auto intro: less_le_trans)
      ultimately show ?thesis
        using \<open>lo < n\<close> by auto
    next
      case False
      have "fold (closer pal (Some r) (Some g) (Some b)) [lo..<Suc n] (PosInf, 0) = (Num (?d c), c)"
        using False \<open>lo < n\<close> by (simp add: st closer_defined)
      moreover have "\<forall>j. lo \<le> j \<and> j < Suc n \<longrightarrow> ?d c \<le> ?d j"
        using least False by (auto simp: less_Suc_eq)
      ultimately show ?thesis
        using c first by auto
    qed
  qed
qed

lemma nearest_from_least:
  assumes "lo < length pal"
  shows "lo \<le> nearest_from lo pal (Some r) (Some g) (Some b)
       \<and> nearest_from lo pal (Some r) (Some g) (Some b) < length pal
       \<and> (\<forall>j. lo \<le> j \<and> j < length pal \<longrightarrow>
              euclidean (r, g, b) (rgb (pal ! nearest_from lo pal (Some r) (Some g) (Some b)))
                \<le> euclidean (r, g, b) (rgb (pal ! j)))
       \<and> (\<forall>j. lo \<le> j \<and> j < nearest_from lo pal (Some r) (Some g) (Some b) \<longrightarrow>
              euclidean (r, g, b) (rgb (pal ! nearest_from lo pal (Some r) (Some g) (Some b)))
                < euclidean (r, g, b) (rgb (pal ! j)))"
proof -
  from nearest_invariant [OF assms, of pal r g b] obtain c where
    "fold (closer pal (Some r) (Some g) (Some b)) [lo..<length pal] (PosInf, 0)
       = (Num (euclidean (r, g, b) (rgb (pal ! c))), c)"
    and rest: "lo \<le> c" "c < length pal"
      "\<forall>j. lo \<le> j \<and> j < length pal \<longrightarrow>
         euclidean (r, g, b) (rgb (pal ! c)) \<le> euclidean (r, g, b) (rgb (pal ! j))"
      "\<forall>j. lo \<le> j \<and> j < c \<longrightarrow>
         euclidean (r, g, b) (rgb (pal ! c)) < euclidean (r, g, b) (rgb (pal ! j))"
    by blast
  then have "nearest_from lo pal (Some r) (Some g) (Some b) = c"
    by (simp add: nearest_from_def)
  with rest show ?thesis by simp
qed

text \<open>
  C1. For every RGB triple of 8-bit channel values, \<open>findClosestColor\<close> returns a palette
  index whose registered colour is at least Euclidean distance from the triple, and every
  lower index is strictly farther: among the entries at least distance it is the lowest.
\<close>

theorem findClosestColor_nearest:
  assumes "0 \<le> r \<and> r \<le> 255" and "0 \<le> g \<and> g \<le> 255" and "0 \<le> b \<and> b \<le> 255"
  shows "findClosestColor (Some r) (Some g) (Some b) < length PALETTE
       \<and> (\<forall>j < length PALETTE.
            euclidean (r, g, b) (rgb (PALETTE ! findClosestColor (Some r) (Some g) (Some b)))
              \<le> euclidean (r, g, b) (rgb (PALETTE ! j)))
       \<and> (\<forall>j < findClosestColor (Some r) (Some g) (Some b).
            euclidean (r, g, b) (rgb (PALETTE ! findClosestColor (Some r) (Some g) (Some b)))
              < euclidean (r, g, b) (rgb (PALETTE ! j)))"
proof -
  have "0 < length PALETTE" by (simp add: length_PALETTE)
  from nearest_from_least [OF this, of r g b] show ?thesis
    by (simp add: findClosestColor_def)
qed

theorem findClosestColor_nearest_witness:
  "findClosestColor (Some 200) (Some 30) (Some 40) < length PALETTE
   \<and> euclidean (200, 30, 40) (rgb (PALETTE ! findClosestColor (Some 200) (Some 30) (Some 40)))
       \<le> euclidean (200, 30, 40) (rgb (PALETTE ! 2))"
  using findClosestColor_nearest [of 200 30 40] by (simp add: length_PALETTE)

section \<open>The redirect-following fetch\<close>

lemma fetch_terminal:
  assumes "0 < n" and "terminal w u res"
  shows "fetchImage w u n =
     (if statusCode res = 200
      then (case stream res of Inl e \<Rightarrow> Reject e | Inr chunks \<Rightarrow> Resolve chunks)
      else Reject (Error (''HTTP '' @ show_int (statusCode res))))"
  using assms by (subst fetchImage.simps) (simp add: terminal_def)

lemma fetch_redirect:
  assumes "0 < n" and "redirects_to w u v"
  shows "fetchImage w u n = fetchImage w v (n - 1)"
proof -
  from assms(2) obtain res where r: "client_get w (client_for u) u = Inr res"
    "is_redirect res" "newUrl w u res = Some v"
    by (auto simp: redirects_to_def split: sum.splits)
  show ?thesis
    by (subst fetchImage.simps) (use assms(1) r in simp)
qed

lemma fetch_exhausted: "n \<le> 0 \<Longrightarrow> fetchImage w u n = Reject (Error ''Too many redirects'')"
  by (subst fetchImage.simps) simp

lemma show_404: "show_int 404 = ''404''"
  by (simp add: show_int_def show_nat.simps digit_def)

text \<open>
  The budget counts requests, not redirects: the fifth redirect of a chain already meets
  \<^verbatim>\<open>maxRedirects = 0\<close>, whatever the sixth URL would answer.
\<close>

lemma fetchImage_fifth_redirect:
  assumes "redirect_chain w [u0, u1, u2, u3, u4, u5]"
  shows "fetchImage_default w u0 = Reject (Error ''Too many redirects'')"
proof -
  from assms have "fetchImage w u0 5 = fetchImage w u1 4"
    using fetch_redirect [of 5 w u0 u1] by simp
  also have "\<dots> = fetchImage w u2 3"
    using assms fetch_redirect [of 4 w u1 u2] by simp
  also have "\<dots> = fetchImage w u3 2"
    using assms fetch_redirect [of 3 w u2 u3] by simp
  also have "\<dots> = fetchImage w u4 1"
    using assms fetch_redirect [of 2 w u3 u4] by simp
  also have "\<dots> = fetchImage w u5 0"
    using assms fetch_redirect [of 1 w u4 u5] by simp
  also have "\<dots> = Reject (Error ''Too many redirects'')"
    by (simp add: fetch_exhausted)
  finally show ?thesis
    by (simp add: fetchImage_default_def)
qed

text \<open>
  C2. With the default budget of 5, a chain of 3 redirects that ends in a 200 response
  resolves with the final body; a chain of 6 redirects is rejected with
  \<^verbatim>\<open>Too many redirects\<close>; a terminal 404 response is rejected with \<^verbatim>\<open>HTTP 404\<close>.
\<close>

theorem fetchImage_redirect_budget:
  "(redirect_chain w [u0, u1, u2, u3] \<and> terminal w u3 res \<and> statusCode res = 200
      \<and> stream res = Inr body
      \<longrightarrow> fetchImage_default w u0 = Resolve body)
   \<and> (redirect_chain w [v0, v1, v2, v3, v4, v5, v6]
      \<longrightarrow> fetchImage_default w v0 = Reject (Error ''Too many redirects''))
   \<and> (terminal w t res' \<and> statusCode res' = 404
      \<longrightarrow> fetchImage_default w t = Reject (Error ''HTTP 404''))"
proof (intro conjI impI)
  assume h: "redirect_chain w [u0, u1, u2, u3] \<and> terminal w u3 res \<and> statusCode res = 200
      \<and> stream res = Inr body"
  then have "fetchImage w u0 5 = fetchImage w u1 4"
    using fetch_redirect [of 5 w u0 u1] by simp
  also have "\<dots> = fetchImage w u2 3"
    using h fetch_redirect [of 4 w u1 u2] by simp
  also have "\<dots> = fetchImage w u3 2"
    using h fetch_redirect [of 3 w u2 u3] by simp
  also have "\<dots> = Resolve body"
    using h fetch_terminal [of 2 w u3 res] by simp
  finally show "fetchImage_default w u0 = Resolve body"
    by (simp add: fetchImage_default_def)
next
  assume h: "redirect_chain w [v0, v1, v2, v3, v4, v5, v6]"
  then have "fetchImage w v0 5 = fetchImage w v1 4"
    using fetch_redirect [of 5 w v0 v1] by simp
  also have "\<dots> = fetchImage w v2 3"
    using h fetch_redirect [of 4 w v1 v2] by simp
  also have "\<dots> = fetchImage w v3 2"
    using h fetch_redirect [of 3 w v2 v3] by simp
  also have "\<dots> = fetchImage w v4 1"
    using h fetch_redirect [of 2 w v3 v4] by simp
  also have "\<dots> = fetchImage w v5 0"
    using h fetch_redirect [of 1 w v4 v5] by simp
  also have "\<dots> = Reject (Error ''Too many redirects'')"
    by (simp add: fetch_exhausted)
  finally show "fetchImage_default w v0 = Reject (Error ''Too many redirects'')"
    by (simp add: fetchImage_default_def)
next
  assume "terminal w t res' \<and> statusCode res' = 404"
  then show "fetchImage_default w t = Reject (Error ''HTTP 404'')"
    using fetch_terminal [of 5 w t res'] by (simp add: fetchImage_default_def show_404)
qed

theorem fetchImage_redirect_budget_witness:
  "redirect_chain demo_web
     [''https://img.example/a'', ''https://cdn.example/b'', ''https://cdn.example/c'',
      ''http://cdn.example/d'']
   \<and> fetchImage_default demo_web ''https://img.example/a'' = Resolve [137, 80, 78, 71]
   \<and> redirect_chain demo_web (replicate 7 ''http://loop.example/'')
   \<and> fetchImage_default demo_web ''http://loop.example/'' = Reject (Error ''Too many redirects'')
   \<and> terminal demo_web ''http://img.example/none''
        \<lparr>statusCode = 404, location = None, stream = Inr []\<rparr>
   \<and> fetchImage_default demo_web ''http://img.example/none'' = Reject (Error ''HTTP 404'')"
proof -
  have a: "redirect_chain demo_web
     [''https://img.example/a'', ''https://cdn.example/b'', ''https://cdn.example/c'',
      ''http://cdn.example/d'']"
    by (simp add: demo_web_def redirects_to_def is_redirect_def newUrl_def client_for_def)
  have b: "terminal demo_web ''http://cdn.example/d''
        \<lparr>statusCode = 200, location = None, stream = Inr [137, 80, 78, 71]\<rparr>"
    by (simp add: demo_web_def terminal_def is_redirect_def)
  have c: "redirect_chain demo_web (replicate 7 ''http://loop.example/'')"
    by (simp add: demo_web_def redirects_to_def is_redirect_def newUrl_def client_for_def
        eval_nat_numeral)
  have d: "terminal demo_web ''http://img.example/none''
        \<lparr>statusCode = 404, location = None, stream = Inr []\<rparr>"
    by (simp add: demo_web_def terminal_def is_redirect_def)
  from a b c d
    fetchImage_redirect_budget [of demo_web
      "''https://img.example/a''" "''https://cdn.example/b''" "''https://cdn.example/c''"
      "''http://cdn.example/d''"
      "\<lparr>statusCode = 200, location = None, stream = Inr [137, 80, 78, 71]\<rparr>"
      "[137, 80, 78, 71]"
      "''http://loop.example/''" "''http://loop.example/''" "''http://loop.example/''"
      "''http://loop.example/''" "''http://loop.example/''" "''http://loop.example/''"
      "''http://loop.example/''"
      "''http://img.example/none''"
      "\<lparr>statusCode = 404, location = None, stream = Inr []\<rparr>"]
  show ?thesis by (simp add: eval_nat_numeral)
qed

text \<open>
  C10. A terminal (non-redirect) response is rejected with \<^verbatim>\<open>HTTP <status>\<close> unless
  its status code is exactly 200: the other 2xx codes are rejected too, and only a 200
  response has its body returned.
\<close>

theorem fetchImage_only_200:
  assumes "0 < maxRedirects" and "terminal w url res"
  shows "fetchImage w url maxRedirects =
     (if statusCode res = 200
      then (case stream res of Inl e \<Rightarrow> Reject e | Inr chunks \<Rightarrow> Resolve chunks)
      else Reject (Error (''HTTP '' @ show_int (statusCode res))))"
  using assms by (rule fetch_terminal)

theorem fetchImage_only_200_witness:
  "terminal demo_web ''http://img.example/made''
     \<lparr>statusCode = 201, location = None, stream = Inr [137, 80]\<rparr>
   \<and> fetchImage demo_web ''http://img.example/made'' 5 = Reject (Error ''HTTP 201'')"
proof -
  have t: "terminal demo_web ''http://img.example/made''
     \<lparr>statusCode = 201, location = None, stream = Inr [137, 80]\<rparr>"
    by (simp add: demo_web_def terminal_def is_redirect_def)
  have "(0::int) < 5" by simp
  from fetchImage_only_200 [OF this t] t show ?thesis
    by (simp add: show_int_def show_nat.simps digit_def)
qed

section \<open>The grid quantizer\<close>

lemma closer_index: "snd st < n \<Longrightarrow> i < n \<Longrightarrow> snd (closer pal r g b i st) < n"
  by (cases "rgb (pal ! i)") (simp add: closer_def Let_def)

lemma fold_closer_index:
  "snd st < n \<Longrightarrow> \<forall>i \<in> set is. i < n \<Longrightarrow> snd (fold (closer pal r g b) is st) < n"
  by (induction "is" arbitrary: st) (simp_all add: closer_index)

lemma nearest_from_index: "0 < length pal \<Longrightarrow> nearest_from lo pal r g b < length pal"
  by (simp add: nearest_from_def fold_closer_index)

text \<open>
  C8. For every raw buffer and channel count, the grid returned by each revision of
  \<open>imageToGrid\<close> has \<open>GRID_ROWS = 32\<close> rows of \<open>GRID_COLS = 48\<close> cells, and every cell
  holds an index below the palette length 12 (indices are naturals, so none is negative).
\<close>

theorem imageToGrid_indices:
  "length (imageToGrid data channels) = GRID_ROWS
   \<and> length (imageToGrid_dark data channels) = GRID_ROWS
   \<and> length (imageToGrid_oneshot data channels) = GRID_ROWS
   \<and> (\<forall>row \<in> set (imageToGrid data channels) \<union> set (imageToGrid_dark data channels)
               \<union> set (imageToGrid_oneshot data channels).
         length row = GRID_COLS \<and> (\<forall>c \<in> set row. c < 12))
   \<and> GRID_ROWS = 32 \<and> GRID_COLS = 48 \<and> length PALETTE = 12 \<and> length PALETTE_dark = 12"
proof -
  have a: "findClosestColor r g b < 12" for r g b
    using nearest_from_index [of PALETTE 0 r g b]
    by (simp add: findClosestColor_def length_PALETTE)
  have b: "nearest_from 1 PALETTE_dark r g b < 12" for r g b
    using nearest_from_index [of PALETTE_dark 1 r g b] by (simp add: length_PALETTE_dark)
  show ?thesis
    using a b
    by (auto simp: imageToGrid_def imageToGrid_dark_def imageToGrid_oneshot_def Let_def
        length_PALETTE length_PALETTE_dark GRID_ROWS_def GRID_COLS_def)
qed

lemma imageToGrid_cell:
  assumes "y < GRID_ROWS" and "x < GRID_COLS"
  shows "imageToGrid data channels ! y ! x =
     (let idx = (y * GRID_COLS + x) * channels;
          r = data_at data idx; g = data_at data (idx + 1); b = data_at data (idx + 2)
      in if exceeds r 240 \<and> exceeds g 240 \<and> exceeds b 240 then 0
         else findClosestColor r g b)"
  using assms by (simp add: imageToGrid_def)

lemma findClosestColor_sample: "findClosestColor (Some 200) (Some 30) (Some 40) = 11"
  by (simp add: findClosestColor_def nearest_from_def closer_def PALETTE_def bacteria_def
      upt_rec [of _ "numeral _"] upt_rec [of _ "Suc _"])

lemma findClosestColor_undefined: "findClosestColor None None None = 0"
  by (simp add: findClosestColor_def nearest_from_def closer_def PALETTE_def bacteria_def
      upt_rec [of _ "numeral _"] upt_rec [of _ "Suc _"])

theorem imageToGrid_indices_witness:
  "length (imageToGrid [200, 30, 40] 3) = GRID_ROWS
   \<and> length (imageToGrid [200, 30, 40] 3 ! 0) = GRID_COLS
   \<and> imageToGrid [200, 30, 40] 3 ! 0 ! 0 < 12
   \<and> imageToGrid [200, 30, 40] 3 ! 0 ! 0 = 11
   \<and> imageToGrid [200, 30, 40] 3 ! 0 ! 1 = 0"
proof -
  let ?grid = "imageToGrid [200, 30, 40] 3"
  note all = imageToGrid_indices [of "[200, 30, 40]" 3]
  from all have rows: "length ?grid = GRID_ROWS" by blast
  then have "?grid ! 0 \<in> set ?grid"
    by (simp add: GRID_ROWS_def)
  with all have row: "length (?grid ! 0) = GRID_COLS \<and> (\<forall>c \<in> set (?grid ! 0). c < 12)"
    by blast
  then have "?grid ! 0 ! 0 \<in> set (?grid ! 0)"
    by (simp add: GRID_COLS_def)
  with row have cell: "?grid ! 0 ! 0 < 12" by blast
  have v0: "?grid ! 0 ! 0 = 11"
    by (simp add: imageToGrid_cell GRID_ROWS_def GRID_COLS_def data_at_def exceeds_def
        findClosestColor_sample)
  have v1: "?grid ! 0 ! 1 = 0"
    by (simp add: imageToGrid_cell GRID_ROWS_def GRID_COLS_def data_at_def exceeds_def
        findClosestColor_undefined)
  from rows row cell v0 v1 show ?thesis by simp
qed


section \<open>The preview renderer\<close>

lemma for_each_append:
  assumes "\<And>i s. i \<in> set is \<Longrightarrow> body i s = Inr (s @ f i)"
  shows "for_each is body s = Inr (s @ concat (map f is))"
  using assms by (induction "is" arbitrary: s) simp_all

lemma well_formed_cell:
  assumes "well_formed grid" and "y < GRID_ROWS" and "x < GRID_COLS"
  shows "grid_at grid y x = Inr (Some (grid ! y ! x))" and "grid ! y ! x < 12"
proof -
  from assms(1,2) have y: "y < length grid" and "grid ! y \<in> set grid"
    by (simp_all add: well_formed_def)
  with assms(1) have row: "length (grid ! y) = GRID_COLS"
    and cells: "\<forall>c \<in> set (grid ! y). c < 12"
    by (auto simp: well_formed_def list_all_iff length_PALETTE)
  from row assms(3) have x: "x < length (grid ! y)" by simp
  with y show "grid_at grid y x = Inr (Some (grid ! y ! x))"
    by (simp add: grid_at_def)
  from x cells show "grid ! y ! x < 12" by simp
qed

lemma rect_markup_render:
  "rect_markup x y (hex (pal ! (grid ! y ! x))) = render_rect (cell_rect pal grid (y, x))"
  by (simp add: rect_markup_def render_rect_def cell_rect_def cellSize_def mult.commute)

lemma concat_cells:
  "concat (map (\<lambda>y. concat (map (\<lambda>x. f (y, x)) xs)) ys)
     = concat (map f (concat (map (\<lambda>y. map (\<lambda>x. (y, x)) xs) ys)))"
  by (induction ys) (simp_all add: comp_def)

lemma concat_cells_filter:
  "concat (map (\<lambda>y. concat (map (\<lambda>x. if P (y, x) then f (y, x) else []) xs)) ys)
     = concat (map f (filter P (concat (map (\<lambda>y. map (\<lambda>x. (y, x)) xs) ys))))"
proof -
  have row: "concat (map (\<lambda>x. if P (y, x) then f (y, x) else []) xs)
      = concat (map f (filter P (map (\<lambda>x. (y, x)) xs)))" for y
    by (induction xs) simp_all
  show ?thesis
    by (induction ys) (simp_all add: row)
qed

lemma gridToSvg_markup:
  assumes "well_formed grid"
  shows "gridToSvg grid
     = Inr (svg_open @ concat (map render_rect (map (cell_rect PALETTE grid) all_cells)) @ ''</svg>'')"
proof -
  let ?cell = "\<lambda>y x svg. case grid_at grid y x of
               Inl e \<Rightarrow> Inl e
             | Inr v \<Rightarrow>
                 (case palette_hex PALETTE v of
                    Inl e \<Rightarrow> Inl e
                  | Inr color \<Rightarrow> Inr (svg @ rect_markup x y color))"
  have cell: "?cell y x svg = Inr (svg @ render_rect (cell_rect PALETTE grid (y, x)))"
    if "y \<in> set [0..<GRID_ROWS]" "x \<in> set [0..<GRID_COLS]" for y x svg
    using that well_formed_cell [OF assms, of y x]
    by (simp add: palette_hex_def length_PALETTE rect_markup_render)
  have row: "for_each [0..<GRID_COLS] (?cell y) svg
      = Inr (svg @ concat (map (\<lambda>x. render_rect (cell_rect PALETTE grid (y, x))) [0..<GRID_COLS]))"
    if "y \<in> set [0..<GRID_ROWS]" for y svg
    using that by (intro for_each_append cell)
  have "for_each [0..<GRID_ROWS] (\<lambda>y. for_each [0..<GRID_COLS] (?cell y)) svg_open
      = Inr (svg_open @ concat (map (\<lambda>y. concat (map (\<lambda>x. render_rect (cell_rect PALETTE grid (y, x)))
            [0..<GRID_COLS])) [0..<GRID_ROWS]))"
    by (intro for_each_append row)
  then show ?thesis
    by (simp add: gridToSvg_def all_cells_def concat_cells [of "\<lambda>c. render_rect (cell_rect PALETTE grid c)"] comp_def)
qed

lemma gridToSvg_dark_markup:
  assumes "well_formed grid"
  shows "gridToSvg_dark grid
     = Inr (svg_open @ backdrop
          @ concat (map render_rect (map (cell_rect PALETTE_dark grid) (filter (painted grid) all_cells)))
          @ ''</svg>'')"
proof -
  let ?cell = "\<lambda>y x svg. case grid_at grid y x of
               Inl e \<Rightarrow> Inl e
             | Inr colorIdx \<Rightarrow>
                 if (case colorIdx of None \<Rightarrow> False | Some c \<Rightarrow> 0 < c) then
                   (case palette_hex PALETTE_dark colorIdx of
                      Inl e \<Rightarrow> Inl e
                    | Inr color \<Rightarrow> Inr (svg @ rect_markup x y color))
                 else Inr svg"
  let ?out = "\<lambda>c. if painted grid c then render_rect (cell_rect PALETTE_dark grid c) else []"
  have cell: "?cell y x svg = Inr (svg @ ?out (y, x))"
    if "y \<in> set [0..<GRID_ROWS]" "x \<in> set [0..<GRID_COLS]" for y x svg
    using that well_formed_cell [OF assms, of y x]
    by (simp add: palette_hex_def length_PALETTE_dark rect_markup_render painted_def)
  have row: "for_each [0..<GRID_COLS] (?cell y) svg
      = Inr (svg @ concat (map (\<lambda>x. ?out (y, x)) [0..<GRID_COLS]))"
    if "y \<in> set [0..<GRID_ROWS]" for y svg
    using that by (intro for_each_append cell)
  have "for_each [0..<GRID_ROWS] (\<lambda>y. for_each [0..<GRID_COLS] (?cell y)) (svg_open @ backdrop)
      = Inr ((svg_open @ backdrop) @ concat (map (\<lambda>y. concat (map (\<lambda>x. ?out (y, x))
            [0..<GRID_COLS])) [0..<GRID_ROWS]))"
    by (intro for_each_append row)
  then show ?thesis
    by (simp add: gridToSvg_dark_def all_cells_def
        concat_cells_filter [of "painted grid" "\<lambda>c. render_rect (cell_rect PALETTE_dark grid c)"] comp_def)
qed

lemma filter_row:
  "filter (\<lambda>c. c = (y, x)) (map (\<lambda>x'. (y', x')) [0..<m]) = (if y' = y \<and> x < m then [(y, x)] else [])"
  by (induction m) auto

lemma filter_cells:
  "filter (\<lambda>c. c = (y, x)) (concat (map (\<lambda>y'. map (\<lambda>x'. (y', x')) [0..<m]) [0..<n]))
     = (if y < n \<and> x < m then [(y, x)] else [])"
  by (induction n) (auto simp: filter_row)

lemma at_cell_rect: "at_cell c (cell_rect pal grid c') = (c' = c)"
  by (cases c, cases c') (auto simp: at_cell_def cell_rect_def)

lemma filter_at_cell:
  "filter (at_cell c) (map (cell_rect pal grid) cs) = map (cell_rect pal grid) (filter (\<lambda>c'. c' = c) cs)"
  by (induction cs) (simp_all add: at_cell_rect)

lemma filter_all_cells:
  "filter (\<lambda>c. c = (y, x)) all_cells = (if y < GRID_ROWS \<and> x < GRID_COLS then [(y, x)] else [])"
  by (simp add: all_cells_def filter_cells)

lemma filter_painted_cells:
  "filter (\<lambda>c. painted grid c \<and> c = (y, x)) all_cells
     = (if y < GRID_ROWS \<and> x < GRID_COLS \<and> grid ! y ! x \<noteq> 0 then [(y, x)] else [])"
proof -
  have "filter (\<lambda>c. painted grid c \<and> c = (y, x)) all_cells
      = filter (painted grid) (filter (\<lambda>c. c = (y, x)) all_cells)"
    by (simp add: conj_commute)
  then show ?thesis
    by (simp add: filter_all_cells painted_def)
qed

text \<open>
  C9. For every well-formed grid, the markup of \<open>gridToSvg\<close> is the opening tag, one
  rectangle element per cell in scan order, and the closing tag; the dark revision emits
  the backdrop and then one rectangle per cell with a non-zero index. In both, a cell
  \<open>(row, col)\<close> with a non-zero index has exactly one rectangle at \<open>(col * 10, row * 10)\<close>,
  of width and height 10 and filled with the hex colour of its palette entry; a
  background cell has one rectangle filled with the colour of entry 0 in
  \<^verbatim>\<open>src/server.js\<close> and no rectangle in the dark revision.
\<close>

theorem gridToSvg_rectangles:
  assumes "well_formed grid"
  shows "gridToSvg grid
       = Inr (svg_open @ concat (map render_rect (map (cell_rect PALETTE grid) all_cells)) @ ''</svg>'')
     \<and> gridToSvg_dark grid
       = Inr (svg_open @ backdrop
            @ concat (map render_rect (map (cell_rect PALETTE_dark grid) (filter (painted grid) all_cells)))
            @ ''</svg>'')
     \<and> (\<forall>row < GRID_ROWS. \<forall>col < GRID_COLS.
          filter (at_cell (row, col)) (map (cell_rect PALETTE grid) all_cells)
            = [\<lparr>rect_x = col * 10, rect_y = row * 10, rect_width = 10, rect_height = 10,
                rect_fill = hex (PALETTE ! (grid ! row ! col))\<rparr>]
        \<and> filter (at_cell (row, col)) (map (cell_rect PALETTE_dark grid) (filter (painted grid) all_cells))
            = (if grid ! row ! col \<noteq> 0
               then [\<lparr>rect_x = col * 10, rect_y = row * 10, rect_width = 10, rect_height = 10,
                      rect_fill = hex (PALETTE_dark ! (grid ! row ! col))\<rparr>]
               else []))"
  using gridToSvg_markup [OF assms] gridToSvg_dark_markup [OF assms]
  by (simp add: filter_at_cell filter_all_cells filter_painted_cells cell_rect_def)

lemma well_formed_corner_grid: "well_formed corner_grid"
  by (simp add: well_formed_def corner_grid_def GRID_ROWS_def GRID_COLS_def length_PALETTE
      list_all_iff)

theorem gridToSvg_rectangles_witness:
  "well_formed corner_grid
   \<and> filter (at_cell (0, 0)) (map (cell_rect PALETTE corner_grid) all_cells)
       = [\<lparr>rect_x = 0, rect_y = 0, rect_width = 10, rect_height = 10, rect_fill = ''#b39223''\<rparr>]
   \<and> filter (at_cell (0, 2)) (map (cell_rect PALETTE corner_grid) all_cells)
       = [\<lparr>rect_x = 20, rect_y = 0, rect_width = 10, rect_height = 10, rect_fill = ''#ffffff''\<rparr>]
   \<and> filter (at_cell (0, 0)) (map (cell_rect PALETTE_dark corner_grid) (filter (painted corner_grid) all_cells))
       = [\<lparr>rect_x = 0, rect_y = 0, rect_width = 10, rect_height = 10, rect_fill = ''#b39223''\<rparr>]
   \<and> filter (at_cell (0, 2)) (map (cell_rect PALETTE_dark corner_grid) (filter (painted corner_grid) all_cells))
       = []"
proof -
  note all = gridToSvg_rectangles [OF well_formed_corner_grid]
  have r: "(0::nat) < GRID_ROWS" and c0: "(0::nat) < GRID_COLS" and c1: "(2::nat) < GRID_COLS"
    by (simp_all add: GRID_ROWS_def GRID_COLS_def)
  from all r c0 have a: "filter (at_cell (0, 0)) (map (cell_rect PALETTE corner_grid) all_cells)
            = [\<lparr>rect_x = 0 * 10, rect_y = 0 * 10, rect_width = 10, rect_height = 10,
                rect_fill = hex (PALETTE ! (corner_grid ! 0 ! 0))\<rparr>]
        \<and> filter (at_cell (0, 0)) (map (cell_rect PALETTE_dark corner_grid) (filter (painted corner_grid) all_cells))
            = (if corner_grid ! 0 ! 0 \<noteq> 0
               then [\<lparr>rect_x = 0 * 10, rect_y = 0 * 10, rect_width = 10, rect_height = 10,
                      rect_fill = hex (PALETTE_dark ! (corner_grid ! 0 ! 0))\<rparr>]
               else [])"
    by blast
  from all r c1 have b: "filter (at_cell (0, 2)) (map (cell_rect PALETTE corner_grid) all_cells)
            = [\<lparr>rect_x = 2 * 10, rect_y = 0 * 10, rect_width = 10, rect_height = 10,
                rect_fill = hex (PALETTE ! (corner_grid ! 0 ! 2))\<rparr>]
        \<and> filter (at_cell (0, 2)) (map (cell_rect PALETTE_dark corner_grid) (filter (painted corner_grid) all_cells))
            = (if corner_grid ! 0 ! 2 \<noteq> 0
               then [\<lparr>rect_x = 2 * 10, rect_y = 0 * 10, rect_width = 10, rect_height = 10,
                      rect_fill = hex (PALETTE_dark ! (corner_grid ! 0 ! 2))\<rparr>]
               else [])"
    by blast
  have v: "corner_grid ! 0 ! 0 = 3" "corner_grid ! 0 ! 2 = 0"
    by (simp_all add: corner_grid_def)
  have h: "hex (PALETTE ! 3) = ''#b39223''" "hex (PALETTE ! 0) = ''#ffffff''"
    "hex (PALETTE_dark ! 3) = ''#b39223''"
    by (simp_all add: PALETTE_def PALETTE_dark_def bacteria_def)
  from a b show ?thesis
    by (simp add: v h well_formed_corner_grid)
qed

section \<open>The replay engine: runs\<close>

lemma fst_seq: "fst (seq m f) = (case fst m of Inl e \<Rightarrow> Inl e | Inr v \<Rightarrow> fst (f v))"
  by (simp add: seq_def split: sum.splits)

lemma snd_seq: "snd (seq m f) = snd m @ (case fst m of Inl e \<Rightarrow> [] | Inr v \<Rightarrow> snd (f v))"
  by (simp add: seq_def split: sum.splits)

lemma fst_try_catch:
  "fst (try_catch m h) = (case fst m of Inl e \<Rightarrow> fst (h e) | Inr v \<Rightarrow> Inr v)"
  by (cases m) (simp add: try_catch_def split: sum.splits)

lemma snd_try_catch:
  "snd (try_catch m h) = snd m @ (case fst m of Inl e \<Rightarrow> snd (h e) | Inr v \<Rightarrow> [])"
  by (simp add: try_catch_def split: sum.splits)

lemma seq_value: "seq (Inr v, tr) f = (fst (f v), tr @ snd (f v))"
  by (simp add: seq_def)


lemma act_calm: "\<not> throws pg a \<Longrightarrow> act pg a = (Inr (), [a])"
  by (simp add: act_def)

lemma avoids_ret: "avoids P (ret v)"
  by (simp add: avoids_def ret_def)

lemma avoids_raise: "avoids P (raise e)"
  by (simp add: avoids_def raise_def)

lemma avoids_act: "\<not> P a \<Longrightarrow> avoids P (act pg a)"
  by (simp add: avoids_def act_def)

lemma avoids_dom_click: "\<not> P (ClickButton k) \<Longrightarrow> avoids P (dom_click k)"
  by (simp add: avoids_def dom_click_def)

lemma avoids_seq: "avoids P m \<Longrightarrow> (\<And>v. avoids P (f v)) \<Longrightarrow> avoids P (seq m f)"
  by (auto simp: avoids_def snd_seq split: sum.splits)

lemma avoids_try_catch: "avoids P m \<Longrightarrow> (\<And>e. avoids P (h e)) \<Longrightarrow> avoids P (try_catch m h)"
  by (auto simp: avoids_def snd_try_catch split: sum.splits)

lemma avoids_filter: "avoids P r \<Longrightarrow> filter P (snd r) = []"
  by (simp add: avoids_def filter_empty_conv)

lemma avoids_click_first:
  "(\<And>k. \<not> P (ReadText k)) \<Longrightarrow> (\<And>k. \<not> P (ClickButton k)) \<Longrightarrow> avoids P (click_first pg btns k)"
  by (induction btns arbitrary: k) (simp_all add: avoids_ret avoids_seq avoids_act)

lemma avoids_press_publish:
  assumes "\<not> P QueryButtons" and "\<And>k. \<not> P (ReadText k)" and "\<And>k. \<not> P (ClickButton k)"
  shows "avoids P (press_publish pg btns)"
  unfolding press_publish_def
  by (intro avoids_seq avoids_act avoids_click_first assms)

lemma avoids_press_publish_dark:
  assumes "\<not> P Evaluate" and "\<And>k. \<not> P (ClickButton k)"
  shows "avoids P (press_publish_dark pg btns)"
  unfolding press_publish_dark_def
  by (intro avoids_seq avoids_act assms)
     (simp add: avoids_ret avoids_dom_click assms split: list.splits)

lemma avoids_confirm_publish_dark:
  assumes "\<not> P Evaluate" and "\<And>k. \<not> P (ClickButton k)"
  shows "avoids P (confirm_publish_dark pg)"
  unfolding confirm_publish_dark_def
  by (intro avoids_seq avoids_act assms)
     (simp add: avoids_ret avoids_dom_click assms Let_def)

lemma avoids_lowest_scan:
  "(\<And>k. \<not> P (ReadText k)) \<Longrightarrow> (\<And>k. \<not> P (BoundingBox k)) \<Longrightarrow> avoids P (lowest_scan pg btns k st)"
  by (induction btns arbitrary: k st) (simp_all add: avoids_ret avoids_seq avoids_act)

lemma avoids_press_lowest:
  assumes "\<not> P QueryButtons" and "\<And>k. \<not> P (ReadText k)" and "\<And>k. \<not> P (BoundingBox k)"
    and "\<And>k. \<not> P (ClickButton k)"
  shows "avoids P (press_lowest pg btns msg)"
  unfolding press_lowest_def
  by (intro avoids_seq avoids_act avoids_lowest_scan assms)
     (simp add: avoids_raise avoids_act assms split: option.splits)

lemma avoids_supply_title:
  assumes "\<not> P QueryTitleInput" and "\<not> P ClickTitle" and "\<And>t. \<not> P (TypeTitle t)"
  shows "avoids P (supply_title pg title)"
  unfolding supply_title_def
  by (intro avoids_seq avoids_act assms)
     (simp add: avoids_ret avoids_seq avoids_act assms split: option.splits)

lemma avoids_supply_title_dark:
  assumes "\<not> P QueryTitleInput" and "\<not> P ClickTitle" and "\<And>t. \<not> P (TypeTitle t)"
  shows "avoids P (supply_title_dark pg title)"
  unfolding supply_title_dark_def
  by (intro avoids_seq avoids_act assms)
     (simp add: avoids_ret avoids_seq avoids_act assms)

lemma avoids_first_link:
  "(\<And>k. \<not> P (ReadHref k)) \<Longrightarrow> avoids P (first_link pg host hrefs k)"
  by (induction hrefs arbitrary: k) (simp_all add: avoids_ret avoids_seq avoids_act)

lemma avoids_scrape:
  assumes "\<not> P QueryLinks" and "\<And>k. \<not> P (ReadHref k)"
  shows "avoids P (scrape pg host)"
  unfolding scrape_def
  by (intro avoids_seq avoids_act avoids_first_link assms)

lemma avoids_scrape_dark:
  assumes "\<not> P Evaluate"
  shows "avoids P (scrape_dark pg)"
  unfolding scrape_dark_def
  by (intro avoids_seq avoids_act avoids_ret assms)

lemma avoids_run_each:
  "(\<And>i. i \<in> set is \<Longrightarrow> avoids P (body i)) \<Longrightarrow> avoids P (run_each is body)"
  by (induction "is") (simp_all add: avoids_ret avoids_seq)

lemma avoids_paint:
  assumes "\<not> P QuerySwatches" and "\<And>c. \<not> P (ClickSwatch c)" and "\<And>i. \<not> P (ClickCell i)"
  shows "avoids P (paint pal pg grid)"
proof -
  have "avoids P (paint_color pg grid c)" for c
    unfolding paint_color_def
    by (auto split: sum.splits
        intro!: avoids_raise avoids_ret avoids_seq avoids_act avoids_run_each assms)
  then show ?thesis
    by (simp add: paint_def avoids_run_each)
qed

section \<open>Paint order\<close>

lemma set_all_cells: "set all_cells = {(y, x). y < GRID_ROWS \<and> x < GRID_COLS}"
  by (auto simp: all_cells_def)


lemma pixels_of_well_formed:
  assumes "well_formed grid"
  shows "pixels_of grid c = Inr (cells_of grid c)"
proof -
  define P where "P = (\<lambda>cell. grid ! fst cell ! snd cell = c)"
  define f where "f = (\<lambda>cell :: nat \<times> nat. [fst cell * GRID_COLS + snd cell])"
  let ?cell = "\<lambda>y x pixels. case grid_at grid y x of
           Inl e \<Rightarrow> Inl e
         | Inr v \<Rightarrow> Inr (if v = Some c then pixels @ [y * GRID_COLS + x] else pixels)"
  have cell: "?cell y x pixels = Inr (pixels @ (if P (y, x) then f (y, x) else []))"
    if "y \<in> set [0..<GRID_ROWS]" "x \<in> set [0..<GRID_COLS]" for y x pixels
    using that well_formed_cell(1) [OF assms, of y x] by (simp add: P_def f_def)
  have row: "for_each [0..<GRID_COLS] (?cell y) pixels
      = Inr (pixels @ concat (map (\<lambda>x. if P (y, x) then f (y, x) else []) [0..<GRID_COLS]))"
    if "y \<in> set [0..<GRID_ROWS]" for y pixels
    using that by (intro for_each_append cell)
  have "for_each [0..<GRID_ROWS] (\<lambda>y. for_each [0..<GRID_COLS] (?cell y)) []
      = Inr ([] @ concat (map (\<lambda>y. concat (map (\<lambda>x. if P (y, x) then f (y, x) else [])
            [0..<GRID_COLS])) [0..<GRID_ROWS]))"
    by (intro for_each_append row)
  also have "\<dots> = Inr (concat (map f (filter P all_cells)))"
    by (simp add: concat_cells_filter all_cells_def)
  also have "concat (map f (filter P all_cells)) = cells_of grid c"
    by (simp add: f_def P_def cells_of_def)
  finally show ?thesis
    by (simp add: pixels_of_def)
qed

lemma run_each_calm:
  assumes "\<And>i. i \<in> set is \<Longrightarrow> body i = (Inr (), t i)"
  shows "run_each is body = (Inr (), concat (map t is))"
  using assms by (induction "is") (simp_all add: ret_def seq_value)



lemma filter_seq_left:
  "avoids P m \<Longrightarrow> fst m = Inr v \<Longrightarrow> filter P (snd (seq m f)) = filter P (snd (f v))"
  by (simp add: snd_seq avoids_filter)

lemma filter_seq_right:
  "(\<And>v. avoids P (f v)) \<Longrightarrow> filter P (snd (seq m f)) = filter P (snd m)"
  by (simp add: snd_seq avoids_filter split: sum.splits)

lemma filter_try_catch:
  "(\<And>e. avoids P (h e)) \<Longrightarrow> filter P (snd (try_catch m h)) = filter P (snd m)"
  by (simp add: snd_try_catch avoids_filter split: sum.splits)

lemma avoids_handler: "P = is_paint \<Longrightarrow> avoids P (seq (act pg Close) (\<lambda>_. raise err))"
  by (simp add: avoids_seq avoids_act avoids_raise)

lemma filter_act_calm:
  assumes "\<not> throws pg a" and "\<not> P a"
  shows "filter P (snd (seq (act pg a) f)) = filter P (snd (f ()))"
  using assms by (simp add: act_calm seq_value)

lemma paint_calls_replay:
  assumes "\<forall>a. \<not> throws pg a"
  shows "filter is_paint (snd (drawAndPublish pg grid title)) = filter is_paint (snd (paint PALETTE pg grid))"
proof -
  have rest: "avoids is_paint
     (seq (press_publish pg (buttons_publish pg)) (\<lambda>_.
      seq (supply_title pg title) (\<lambda>_.
      seq (confirm_publish pg) (\<lambda>_.
      seq (scrape pg ''opentrons-art'') (\<lambda>url.
      seq (act pg Close) (\<lambda>_.
      ret url))))))"
    unfolding confirm_publish_def
    by (intro avoids_seq avoids_press_publish avoids_supply_title avoids_scrape avoids_act
        avoids_ret) simp_all
  have "filter is_paint (snd (replay pg grid title)) = filter is_paint (snd (paint PALETTE pg grid))"
    unfolding replay_def using assms
    by (simp add: filter_act_calm filter_seq_right [OF rest])
  then show ?thesis
    unfolding drawAndPublish_def using assms
    by (simp add: filter_act_calm filter_try_catch avoids_handler)
qed



lemma paint_calls_replay_oneshot:
  assumes "\<forall>a. \<not> throws pg a"
  shows "filter is_paint (snd (drawAndPublish_oneshot pg grid title))
       = filter is_paint (snd (paint PALETTE pg grid))"
proof -
  have rest: "avoids is_paint
     (seq (press_lowest pg (buttons_publish pg) ''Publish button not found'') (\<lambda>_.
      seq (supply_title pg title) (\<lambda>_.
      seq (confirm_publish_oneshot pg) (\<lambda>_.
      seq (scrape pg ''opentrons-art.rcdonovan.com'') (\<lambda>url.
      seq (act pg Close) (\<lambda>_.
      ret url))))))"
    unfolding confirm_publish_oneshot_def
    by (intro avoids_seq avoids_press_lowest avoids_supply_title avoids_scrape avoids_act
        avoids_ret) simp_all
  have "filter is_paint (snd (replay_oneshot pg grid title))
      = filter is_paint (snd (paint PALETTE pg grid))"
    unfolding replay_oneshot_def using assms
    by (simp add: filter_act_calm filter_seq_right [OF rest])
  then show ?thesis
    unfolding drawAndPublish_oneshot_def using assms
    by (simp add: filter_act_calm filter_try_catch avoids_handler)
qed




lemma corner_grid_cell:
  assumes "y < GRID_ROWS" and "x < GRID_COLS"
  shows "corner_grid ! y ! x = (if y = 0 \<and> x = 0 then 3 else 0)"
  using assms by (auto simp: corner_grid_def nth_Cons' GRID_ROWS_def GRID_COLS_def)

lemma cells_of_corner_grid:
  assumes "c \<noteq> 0"
  shows "cells_of corner_grid c = (if c = 3 then [0] else [])"
proof -
  have "filter (\<lambda>cell. corner_grid ! fst cell ! snd cell = c) all_cells
      = filter (\<lambda>cell. c = 3 \<and> cell = (0, 0)) all_cells"
    using assms
    by (intro filter_cong refl) (auto simp: set_all_cells corner_grid_cell split: if_splits)
  also have "\<dots> = (if c = 3 then filter (\<lambda>cell. cell = (0, 0)) all_cells else [])"
    by simp
  also have "\<dots> = (if c = 3 then [(0, 0)] else [])"
    by (simp add: filter_all_cells GRID_ROWS_def GRID_COLS_def)
  finally show ?thesis
    by (simp add: cells_of_def)
qed


section \<open>Empty discovery\<close>

lemma seq_raise: "seq (raise e) f = raise e"
  by (simp add: seq_def raise_def)

lemma isl_seq_left: "isl (fst m) \<Longrightarrow> isl (fst (seq m f))"
  by (auto simp: fst_seq split: sum.splits)

lemma isl_seq_right: "(\<And>v. isl (fst (f v))) \<Longrightarrow> isl (fst (seq m f))"
  by (simp add: fst_seq split: sum.splits)

lemma isl_try_catch: "isl (fst m) \<Longrightarrow> (\<And>e. isl (fst (h e))) \<Longrightarrow> isl (fst (try_catch m h))"
  by (auto simp: fst_try_catch split: sum.splits)

lemma isl_raise: "isl (fst (raise e))"
  by (simp add: raise_def)

lemma concat_map_if: "concat (map (\<lambda>i. if P i then [f i] else []) xs) = map f (filter P xs)"
  by (induction xs) simp_all

lemma paint_color_quiet:
  assumes "well_formed grid" and "\<forall>a. \<not> throws pg a"
  shows "paint_color pg grid c =
     (Inr (), if cells_of grid c = [] then []
              else QuerySwatches # (if c < nswatches pg c then [ClickSwatch c] else [])
                   @ map ClickCell (filter (\<lambda>i. i < ncells pg) (cells_of grid c)))"
proof -
  have "(if idx < ncells pg then act pg (ClickCell idx) else ret ())
      = (Inr (), if idx < ncells pg then [ClickCell idx] else [])" for idx
    using assms(2) by (simp add: act_calm ret_def)
  then have cells: "run_each (cells_of grid c)
        (\<lambda>idx. if idx < ncells pg then act pg (ClickCell idx) else ret ())
      = (Inr (), concat (map (\<lambda>idx. if idx < ncells pg then [ClickCell idx] else []) (cells_of grid c)))"
    by (intro run_each_calm)
  show ?thesis
    using assms(2)
    by (simp add: paint_color_def pixels_of_well_formed [OF assms(1)] ret_def act_calm seq_value
        cells concat_map_if)
qed

lemma paint_blind:
  assumes "well_formed grid" and "\<forall>a. \<not> throws pg a" and "ncells pg = 0"
  shows "filter is_paint (snd (paint pal pg grid)) = concat (map (selector_only pg grid) [1..<length pal])"
proof -
  let ?t = "\<lambda>c. if cells_of grid c = [] then []
              else QuerySwatches # (if c < nswatches pg c then [ClickSwatch c] else [])
                   @ map ClickCell (filter (\<lambda>i. i < ncells pg) (cells_of grid c))"
  have "paint_color pg grid c = (Inr (), ?t c)" for c
    using assms(1,2) by (rule paint_color_quiet)
  then have p: "paint pal pg grid = (Inr (), concat (map ?t [1..<length pal]))"
    unfolding paint_def by (intro run_each_calm)
  have "filter is_paint (?t c) = selector_only pg grid c" for c
    using assms(3) by (simp add: selector_only_def)
  then show ?thesis
    by (simp add: p filter_concat comp_def)
qed

lemma replay_dark_blank:
  assumes "ncells pg = 0"
  shows "replay_dark pg grid title =
     seq (act pg Goto) (\<lambda>_. seq (act pg QueryCells) (\<lambda>_.
       raise (Error ''No grid cells found - page may not have loaded correctly'')))"
  using assms by (simp add: replay_dark_def seq_raise)

text \<open>
  C3, as amended. In the dark revision, when the cell discovery finds nothing,
  \<open>drawAndPublish\<close> fails and makes no selector or cell click; when no browser call
  rejects, it fails right after the discovery with the error
  \<^verbatim>\<open>No grid cells found - page may not have loaded correctly\<close>. The other two revisions
  have no such check: on a well-formed grid and a page where no call rejects they click no
  cell, yet activate, in ascending order, the selector of every colour that has a cell and
  whose selector control is found (\<^verbatim>\<open>swatches[colorIdx]\<close> is present), and no other.
\<close>

theorem empty_discovery:
  assumes "ncells pg = 0"
  shows "isl (fst (drawAndPublish_dark pg grid title))
       \<and> filter is_paint (snd (drawAndPublish_dark pg grid title)) = []
       \<and> ((\<forall>a. \<not> throws pg a) \<longrightarrow>
            drawAndPublish_dark pg grid title =
              (Inl (Error ''No grid cells found - page may not have loaded correctly''),
               [Launch, NewPage, SetViewport, Goto, QueryCells, Close]))
       \<and> (well_formed grid \<and> (\<forall>a. \<not> throws pg a) \<longrightarrow>
            filter is_paint (snd (drawAndPublish pg grid title))
              = concat (map (selector_only pg grid) [1..<12])
          \<and> filter is_paint (snd (drawAndPublish_oneshot pg grid title))
              = concat (map (selector_only pg grid) [1..<12]))"
proof (intro conjI impI)
  note blank = replay_dark_blank [OF assms]
  show "isl (fst (drawAndPublish_dark pg grid title))"
    unfolding drawAndPublish_dark_def blank
    by (intro isl_seq_right isl_try_catch isl_raise)
  have "avoids is_paint (drawAndPublish_dark pg grid title)"
    unfolding drawAndPublish_dark_def blank
    by (intro avoids_seq avoids_try_catch avoids_act avoids_raise) simp_all
  then show "filter is_paint (snd (drawAndPublish_dark pg grid title)) = []"
    by (rule avoids_filter)
next
  assume "\<forall>a. \<not> throws pg a"
  then show "drawAndPublish_dark pg grid title =
              (Inl (Error ''No grid cells found - page may not have loaded correctly''),
               [Launch, NewPage, SetViewport, Goto, QueryCells, Close])"
    by (simp add: drawAndPublish_dark_def replay_dark_blank [OF assms] act_calm seq_value
        try_catch_def raise_def)
next
  assume h: "well_formed grid \<and> (\<forall>a. \<not> throws pg a)"
  then show "filter is_paint (snd (drawAndPublish pg grid title))
              = concat (map (selector_only pg grid) [1..<12])"
    using paint_calls_replay [of pg grid title] paint_blind [of grid pg PALETTE] assms
    by (simp add: length_PALETTE)
  from h show "filter is_paint (snd (drawAndPublish_oneshot pg grid title))
              = concat (map (selector_only pg grid) [1..<12])"
    using paint_calls_replay_oneshot [of pg grid title] paint_blind [of grid pg PALETTE] assms
    by (simp add: length_PALETTE)
qed

lemma calm_pages:
  "\<forall>a. \<not> throws calm_page a" "\<forall>a. \<not> throws blank_page a" "ncells blank_page = 0"
  by (simp_all add: calm_page_def blank_page_def)

lemma selectors_corner_grid:
  "concat (map (selector_only blank_page corner_grid) [1..<12]) = [ClickSwatch 3]"
  by (simp add: selector_only_def cells_of_corner_grid blank_page_def calm_page_def
      upt_rec [of _ "numeral _"] upt_rec [of _ "Suc _"])

text \<open>A colour whose selector is not found gets no activation, whatever cells hold it.\<close>

lemma selector_not_found: "nswatches pg c \<le> c \<Longrightarrow> selector_only pg grid c = []"
  by (simp add: selector_only_def)

theorem empty_discovery_witness:
  "ncells blank_page = 0 \<and> well_formed corner_grid \<and> (\<forall>a. \<not> throws blank_page a)
   \<and> drawAndPublish_dark blank_page corner_grid None =
        (Inl (Error ''No grid cells found - page may not have loaded correctly''),
         [Launch, NewPage, SetViewport, Goto, QueryCells, Close])
   \<and> filter is_paint (snd (drawAndPublish blank_page corner_grid None)) = [ClickSwatch 3]
   \<and> filter is_paint (snd (drawAndPublish_oneshot blank_page corner_grid None)) = [ClickSwatch 3]"
proof -
  note all = empty_discovery [OF calm_pages(3), of corner_grid None]
  from all calm_pages(2) have a: "drawAndPublish_dark blank_page corner_grid None =
        (Inl (Error ''No grid cells found - page may not have loaded correctly''),
         [Launch, NewPage, SetViewport, Goto, QueryCells, Close])"
    by blast
  from all calm_pages(2) well_formed_corner_grid
  have "filter is_paint (snd (drawAndPublish blank_page corner_grid None))
              = concat (map (selector_only blank_page corner_grid) [1..<12])"
    and "filter is_paint (snd (drawAndPublish_oneshot blank_page corner_grid None))
              = concat (map (selector_only blank_page corner_grid) [1..<12])"
    by blast+
  then have "filter is_paint (snd (drawAndPublish blank_page corner_grid None)) = [ClickSwatch 3]"
    and "filter is_paint (snd (drawAndPublish_oneshot blank_page corner_grid None)) = [ClickSwatch 3]"
    by (simp_all only: selectors_corner_grid)
  with a calm_pages well_formed_corner_grid show ?thesis
    by blast
qed

lemma paint_corner_blank:
  "paint PALETTE blank_page corner_grid = (Inr (), [QuerySwatches, ClickSwatch 3])"
proof -
  have "paint_color blank_page corner_grid c =
      (Inr (), if c = 3 then [QuerySwatches, ClickSwatch 3] else [])" if "c \<in> set [1..<12]" for c
    using that calm_pages(2)
    by (simp add: paint_color_quiet [OF well_formed_corner_grid] cells_of_corner_grid
        blank_page_def calm_page_def)
  then have "paint PALETTE blank_page corner_grid =
      (Inr (), concat (map (\<lambda>c. if c = 3 then [QuerySwatches, ClickSwatch 3] else []) [1..<12]))"
    unfolding paint_def length_PALETTE by (intro run_each_calm)
  then show ?thesis
    by (simp add: upt_rec [of _ "numeral _"] upt_rec [of _ "Suc _"])
qed

lemma is_publish_samples:
  "is_publish \<lparr>textContent = ''Publish'', box_y = b\<rparr>"
  "\<not> is_publish \<lparr>textContent = ''Clear'', box_y = b\<rparr>"
  "\<not> is_publish \<lparr>textContent = ''Cancel'', box_y = b\<rparr>"
  by (simp_all add: is_publish_def sublist_Cons_right)

lemma is_gallery_samples:
  "is_gallery ''opentrons-art'' ''https://opentrons-art.rcdonovan.com/art/1''"
  "\<not> is_gallery ''opentrons-art'' ''https://ginkgoartworks.com/about''"
  by (simp_all add: is_gallery_def sublist_Cons_right)

theorem empty_discovery_counterexample:
  "ncells blank_page = 0
   \<and> drawAndPublish blank_page corner_grid (Some ''corner'') =
       (Inr (Some ''https://opentrons-art.rcdonovan.com/art/1''),
        [Launch, NewPage, Goto, QueryCells, QuerySwatches, ClickSwatch 3,
         QueryButtons, ReadText 0, ReadText 1, ClickButton 1,
         QueryTitleInput, ClickTitle, TypeTitle ''corner'',
         QueryButtons, ReadText 0, ReadText 1, ClickButton 1,
         QueryLinks, ReadHref 0, ReadHref 1, Close])"
proof -
  have t: "throws blank_page a = False" for a
    by (simp add: blank_page_def calm_page_def)
  have f: "buttons_publish blank_page = [\<lparr>textContent = ''Clear'', box_y = Some 40\<rparr>,
                         \<lparr>textContent = ''Publish'', box_y = Some 40\<rparr>]"
    "buttons_confirm blank_page = [\<lparr>textContent = ''Clear'', box_y = Some 40\<rparr>,
                         \<lparr>textContent = ''Publish'', box_y = Some 40\<rparr>,
                         \<lparr>textContent = ''Cancel'', box_y = Some 300\<rparr>,
                         \<lparr>textContent = ''Publish'', box_y = Some 300\<rparr>]"
    "titleInput blank_page"
    "links blank_page = [''https://ginkgoartworks.com/about'', ''https://opentrons-art.rcdonovan.com/art/1'']"
    by (simp_all add: blank_page_def calm_page_def)
  show ?thesis
    by (simp add: calm_pages drawAndPublish_def replay_def paint_corner_blank act_def t f
        seq_value press_publish_def confirm_publish_def supply_title_def scrape_def
        is_publish_samples is_gallery_samples ret_def try_catch_def)
qed

section \<open>Confirming the publication\<close>

lemma matching_Cons:
  "matching (b # bs) = (if is_publish b then [0] else []) @ map Suc (matching bs)"
proof -
  have "[0..<length (b # bs)] = 0 # map Suc [0..<length bs]"
    by (simp add: upt_conv_Cons map_Suc_upt del: upt_Suc)
  then show ?thesis
    by (simp add: matching_def filter_map comp_def)
qed

lemma matching_member: "k \<in> set (matching btns) \<longleftrightarrow> k < length btns \<and> is_publish (btns ! k)"
  by (auto simp: matching_def)

lemma clicked_buttons_append:
  "clicked_buttons (xs @ ys) = clicked_buttons xs @ clicked_buttons ys"
  by (induction xs rule: clicked_buttons.induct) simp_all

lemma click_first_calm:
  assumes "\<forall>a. \<not> throws pg a"
  shows "clicked_buttons (snd (click_first pg btns k))
       = (case matching btns of [] \<Rightarrow> [] | m # _ \<Rightarrow> [k + m])"
proof (induction btns arbitrary: k)
  case Nil
  then show ?case by (simp add: matching_def ret_def)
next
  case (Cons btn rest)
  show ?case
  proof (cases "is_publish btn")
    case True
    then show ?thesis
      using assms by (simp add: act_calm seq_value matching_Cons)
  next
    case False
    then show ?thesis
      using assms Cons.IH [of "Suc k"]
      by (simp add: act_calm seq_value matching_Cons split: list.splits)
  qed
qed

lemma confirm_publish_first:
  assumes "\<forall>a. \<not> throws pg a" and "matching (buttons_confirm pg) \<noteq> []"
  shows "clicked_buttons (snd (confirm_publish pg)) = [hd (matching (buttons_confirm pg))]"
  using assms click_first_calm [OF assms(1), of "buttons_confirm pg" 0]
  by (simp add: confirm_publish_def press_publish_def act_calm seq_value split: list.splits)

lemma confirm_publish_dark_last:
  assumes "\<forall>a. \<not> throws pg a" and "matching (buttons_confirm pg) \<noteq> []"
  shows "clicked_buttons (snd (confirm_publish_dark pg)) = [last (matching (buttons_confirm pg))]"
proof -
  let ?pubs = "matching (buttons_confirm pg)"
  from assms(2) have n: "0 < length ?pubs" by simp
  have l: "?pubs ! (length ?pubs - 1) = last ?pubs"
    using assms(2) by (simp add: last_conv_nth)
  show ?thesis
  proof (cases "1 < length ?pubs")
    case True
    then show ?thesis
      using assms(1) l
      by (simp add: confirm_publish_dark_def act_calm seq_value Let_def dom_click_def)
  next
    case False
    with n have one: "length ?pubs = 1" by linarith
    with l have "?pubs ! 0 = last ?pubs" by simp
    with one show ?thesis
      using assms(1)
      by (simp add: confirm_publish_dark_def act_calm seq_value Let_def dom_click_def)
  qed
qed

lemma lowest_scan_calm:
  assumes "\<forall>a. \<not> throws pg a"
  shows "fst (lowest_scan pg btns k st) = Inr (lowest_from btns k st)
       \<and> clicked_buttons (snd (lowest_scan pg btns k st)) = []"
  using assms
  by (induction btns arbitrary: k st)
     (simp_all add: ret_def act_calm seq_value clicked_buttons_append)

text \<open>
  The invariant of the scan: the kept maximum never decreases, bounds the \<open>y\<close> of every
  matching button seen, and the kept button is the first that reaches it.
\<close>

lemma lowest_from_invariant:
  "fst st \<le> fst (lowest_from btns k st)
   \<and> (\<forall>i < length btns. is_publish (btns ! i) \<longrightarrow>
         (\<forall>y. box_y (btns ! i) = Some y \<longrightarrow> y \<le> fst (lowest_from btns k st)))
   \<and> (lowest_from btns k st = st
      \<or> (\<exists>i < length btns.
            snd (lowest_from btns k st) = Some (k + i)
          \<and> is_publish (btns ! i)
          \<and> box_y (btns ! i) = Some (fst (lowest_from btns k st))
          \<and> fst st < fst (lowest_from btns k st)
          \<and> (\<forall>j < i. is_publish (btns ! j) \<longrightarrow>
                (\<forall>y. box_y (btns ! j) = Some y \<longrightarrow> y < fst (lowest_from btns k st)))))"
proof (induction btns arbitrary: k st)
  case Nil
  then show ?case by simp
next
  case (Cons btn rest)
  define st1 where "st1 =
       (if is_publish btn then
          (case box_y btn of
             None \<Rightarrow> st
           | Some y \<Rightarrow> if fst st < y then (y, Some k) else st)
        else st)"
  define st' where "st' = lowest_from rest (Suc k) st1"
  have unfold: "lowest_from (btn # rest) k st = st'"
    by (simp add: st'_def st1_def)
  have mono1: "fst st \<le> fst st1"
    by (simp add: st1_def split: option.splits)
  have head: "y \<le> fst st1" if "is_publish btn" "box_y btn = Some y" for y
    using that by (simp add: st1_def)
  have kept1: "st1 = st \<or> (st1 = (fst st1, Some k) \<and> is_publish btn
      \<and> box_y btn = Some (fst st1) \<and> fst st < fst st1)"
    by (auto simp: st1_def split: option.splits)
  from Cons.IH [of st1 "Suc k"]
  have mono: "fst st1 \<le> fst st'"
    and bound: "\<forall>i < length rest. is_publish (rest ! i) \<longrightarrow>
         (\<forall>y. box_y (rest ! i) = Some y \<longrightarrow> y \<le> fst st')"
    and kept: "st' = st1
      \<or> (\<exists>i < length rest.
            snd st' = Some (Suc k + i)
          \<and> is_publish (rest ! i)
          \<and> box_y (rest ! i) = Some (fst st')
          \<and> fst st1 < fst st'
          \<and> (\<forall>j < i. is_publish (rest ! j) \<longrightarrow>
                (\<forall>y. box_y (rest ! j) = Some y \<longrightarrow> y < fst st')))"
    unfolding st'_def by blast+
  have a: "fst st \<le> fst st'"
    using mono1 mono by simp
  have b: "\<forall>i < length (btn # rest). is_publish ((btn # rest) ! i) \<longrightarrow>
         (\<forall>y. box_y ((btn # rest) ! i) = Some y \<longrightarrow> y \<le> fst st')"
  proof (intro allI impI)
    fix i y
    assume i: "i < length (btn # rest)" and p: "is_publish ((btn # rest) ! i)"
      and y: "box_y ((btn # rest) ! i) = Some y"
    show "y \<le> fst st'"
    proof (cases i)
      case 0
      with p y have "y \<le> fst st1" by (simp add: head)
      with mono show ?thesis by simp
    next
      case (Suc i')
      with i p y bound show ?thesis by simp
    qed
  qed
  have c: "st' = st
      \<or> (\<exists>i < length (btn # rest).
            snd st' = Some (k + i)
          \<and> is_publish ((btn # rest) ! i)
          \<and> box_y ((btn # rest) ! i) = Some (fst st')
          \<and> fst st < fst st'
          \<and> (\<forall>j < i. is_publish ((btn # rest) ! j) \<longrightarrow>
                (\<forall>y. box_y ((btn # rest) ! j) = Some y \<longrightarrow> y < fst st')))"
    using kept
  proof
    assume same: "st' = st1"
    from kept1 show ?thesis
    proof
      assume "st1 = st"
      with same show ?thesis by simp
    next
      assume h: "st1 = (fst st1, Some k) \<and> is_publish btn
        \<and> box_y btn = Some (fst st1) \<and> fst st < fst st1"
      then have "snd st1 = Some k"
        by (metis snd_conv)
      with h same have "0 < length (btn # rest) \<and> snd st' = Some (k + 0)
          \<and> is_publish ((btn # rest) ! 0)
          \<and> box_y ((btn # rest) ! 0) = Some (fst st')
          \<and> fst st < fst st'
          \<and> (\<forall>j < 0. is_publish ((btn # rest) ! j) \<longrightarrow>
                (\<forall>y. box_y ((btn # rest) ! j) = Some y \<longrightarrow> y < fst st'))"
        by simp
      then show ?thesis by blast
    qed
  next
    assume "\<exists>i < length rest.
            snd st' = Some (Suc k + i)
          \<and> is_publish (rest ! i)
          \<and> box_y (rest ! i) = Some (fst st')
          \<and> fst st1 < fst st'
          \<and> (\<forall>j < i. is_publish (rest ! j) \<longrightarrow>
                (\<forall>y. box_y (rest ! j) = Some y \<longrightarrow> y < fst st'))"
    then obtain i where i: "i < length rest" "snd st' = Some (Suc k + i)"
      "is_publish (rest ! i)" "box_y (rest ! i) = Some (fst st')" "fst st1 < fst st'"
      and before: "\<forall>j < i. is_publish (rest ! j) \<longrightarrow>
                (\<forall>y. box_y (rest ! j) = Some y \<longrightarrow> y < fst st')"
      by blast
    have earlier: "\<forall>j < Suc i. is_publish ((btn # rest) ! j) \<longrightarrow>
                (\<forall>y. box_y ((btn # rest) ! j) = Some y \<longrightarrow> y < fst st')"
    proof (intro allI impI)
      fix j y
      assume j: "j < Suc i" and p: "is_publish ((btn # rest) ! j)"
        and y: "box_y ((btn # rest) ! j) = Some y"
      show "y < fst st'"
      proof (cases j)
        case 0
        with p y have "y \<le> fst st1" by (simp add: head)
        with i(5) show ?thesis by simp
      next
        case (Suc j')
        with j p y before show ?thesis by simp
      qed
    qed
    from i mono1 have "Suc i < length (btn # rest) \<and> snd st' = Some (k + Suc i)
          \<and> is_publish ((btn # rest) ! Suc i)
          \<and> box_y ((btn # rest) ! Suc i) = Some (fst st')
          \<and> fst st < fst st'"
      by simp
    with earlier show ?thesis by blast
  qed
  from a b c show ?case
    unfolding unfold by blast
qed


lemma confirm_publish_oneshot_lowest:
  assumes "\<forall>a. \<not> throws pg a"
  shows "(\<exists>k y. clicked_buttons (snd (confirm_publish_oneshot pg)) = [k]
            \<and> k < length (buttons_confirm pg) \<and> is_publish (buttons_confirm pg ! k)
            \<and> box_y (buttons_confirm pg ! k) = Some y \<and> - 1 < y
            \<and> (\<forall>j < length (buttons_confirm pg). is_publish (buttons_confirm pg ! j) \<longrightarrow>
                  (\<forall>y'. box_y (buttons_confirm pg ! j) = Some y' \<longrightarrow> y' \<le> y \<and> (j < k \<longrightarrow> y' < y))))
       \<or> (fst (confirm_publish_oneshot pg) = Inl (Error ''Modal publish button not found'')
          \<and> clicked_buttons (snd (confirm_publish_oneshot pg)) = []
          \<and> (\<forall>j < length (buttons_confirm pg). is_publish (buttons_confirm pg ! j) \<longrightarrow>
                (\<forall>y'. box_y (buttons_confirm pg ! j) = Some y' \<longrightarrow> y' \<le> - 1)))"
proof -
  let ?btns = "buttons_confirm pg"
  define st' where "st' = lowest_from ?btns 0 (- 1, None)"
  note scan = lowest_scan_calm [OF assms, of ?btns 0 "(- 1, None)", folded st'_def]
  obtain tr where run: "lowest_scan pg ?btns 0 (- 1, None) = (Inr st', tr)"
    and quiet: "clicked_buttons tr = []"
    using scan by (cases "lowest_scan pg ?btns 0 (- 1, None)") simp
  note inv = lowest_from_invariant [of "(- 1, None)" ?btns 0, folded st'_def]
  from inv have bound: "\<forall>i < length ?btns. is_publish (?btns ! i) \<longrightarrow>
         (\<forall>y. box_y (?btns ! i) = Some y \<longrightarrow> y \<le> fst st')"
    by blast
  from inv have kept: "st' = (- 1, None)
      \<or> (\<exists>i < length ?btns.
            snd st' = Some (0 + i)
          \<and> is_publish (?btns ! i)
          \<and> box_y (?btns ! i) = Some (fst st')
          \<and> fst (- 1 :: real, None :: nat option) < fst st'
          \<and> (\<forall>j < i. is_publish (?btns ! j) \<longrightarrow>
                (\<forall>y. box_y (?btns ! j) = Some y \<longrightarrow> y < fst st')))"
    by blast
  from kept show ?thesis
  proof
    assume none: "st' = (- 1, None)"
    then have "confirm_publish_oneshot pg
        = (Inl (Error ''Modal publish button not found''), QueryButtons # tr)"
      using assms
      by (simp add: confirm_publish_oneshot_def press_lowest_def act_calm seq_value run raise_def)
    moreover from bound none have "\<forall>j < length ?btns. is_publish (?btns ! j) \<longrightarrow>
                (\<forall>y'. box_y (?btns ! j) = Some y' \<longrightarrow> y' \<le> - 1)"
      by simp
    ultimately show ?thesis
      using quiet by simp
  next
    assume "\<exists>i < length ?btns.
            snd st' = Some (0 + i)
          \<and> is_publish (?btns ! i)
          \<and> box_y (?btns ! i) = Some (fst st')
          \<and> fst (- 1 :: real, None :: nat option) < fst st'
          \<and> (\<forall>j < i. is_publish (?btns ! j) \<longrightarrow>
                (\<forall>y. box_y (?btns ! j) = Some y \<longrightarrow> y < fst st'))"
    then obtain i where i: "i < length ?btns" "snd st' = Some i" "is_publish (?btns ! i)"
      "box_y (?btns ! i) = Some (fst st')" "- 1 < fst st'"
      and before: "\<forall>j < i. is_publish (?btns ! j) \<longrightarrow>
                (\<forall>y. box_y (?btns ! j) = Some y \<longrightarrow> y < fst st')"
      by auto
    have "confirm_publish_oneshot pg = (Inr (), QueryButtons # tr @ [ClickButton i])"
      using assms i(2)
      by (simp add: confirm_publish_oneshot_def press_lowest_def act_calm seq_value run)
    then have "clicked_buttons (snd (confirm_publish_oneshot pg)) = [i]"
      using quiet by (simp add: clicked_buttons_append)
    moreover have "\<forall>j < length ?btns. is_publish (?btns ! j) \<longrightarrow>
                  (\<forall>y'. box_y (?btns ! j) = Some y' \<longrightarrow> y' \<le> fst st' \<and> (j < i \<longrightarrow> y' < fst st'))"
      using bound before by blast
    ultimately show ?thesis
      using i by blast
  qed
qed

text \<open>
  C5, as amended. On a page where no call rejects and some button's text includes
  \<^verbatim>\<open>Publish\<close> at the confirmation: the dark revision clicks the last such button in
  document order, and only it; \<^verbatim>\<open>src/server.js\<close> clicks the first such button, and only
  it. The one-shot revision clicks the first of the matching buttons whose bounding box
  has the greatest \<^verbatim>\<open>y\<close>, provided that \<^verbatim>\<open>y\<close> exceeds -1, and otherwise throws
  \<^verbatim>\<open>Modal publish button not found\<close> without a click.
\<close>

theorem confirm_publish_choice:
  assumes "\<forall>a. \<not> throws pg a"
  shows "(matching (buttons_confirm pg) \<noteq> [] \<longrightarrow>
            clicked_buttons (snd (confirm_publish_dark pg)) = [last (matching (buttons_confirm pg))]
          \<and> clicked_buttons (snd (confirm_publish pg)) = [hd (matching (buttons_confirm pg))])
       \<and> ((\<exists>k y. clicked_buttons (snd (confirm_publish_oneshot pg)) = [k]
            \<and> k < length (buttons_confirm pg) \<and> is_publish (buttons_confirm pg ! k)
            \<and> box_y (buttons_confirm pg ! k) = Some y \<and> - 1 < y
            \<and> (\<forall>j < length (buttons_confirm pg). is_publish (buttons_confirm pg ! j) \<longrightarrow>
                  (\<forall>y'. box_y (buttons_confirm pg ! j) = Some y' \<longrightarrow> y' \<le> y \<and> (j < k \<longrightarrow> y' < y))))
          \<or> (fst (confirm_publish_oneshot pg) = Inl (Error ''Modal publish button not found'')
             \<and> clicked_buttons (snd (confirm_publish_oneshot pg)) = []
             \<and> (\<forall>j < length (buttons_confirm pg). is_publish (buttons_confirm pg ! j) \<longrightarrow>
                   (\<forall>y'. box_y (buttons_confirm pg ! j) = Some y' \<longrightarrow> y' \<le> - 1))))"
  using confirm_publish_dark_last [OF assms] confirm_publish_first [OF assms]
    confirm_publish_oneshot_lowest [OF assms]
  by blast

lemma calm_page_fields:
  "throws calm_page a = False"
  "buttons_publish calm_page = [\<lparr>textContent = ''Clear'', box_y = Some 40\<rparr>,
                         \<lparr>textContent = ''Publish'', box_y = Some 40\<rparr>]"
  "buttons_confirm calm_page = [\<lparr>textContent = ''Clear'', box_y = Some 40\<rparr>,
                         \<lparr>textContent = ''Publish'', box_y = Some 40\<rparr>,
                         \<lparr>textContent = ''Cancel'', box_y = Some 300\<rparr>,
                         \<lparr>textContent = ''Publish'', box_y = Some 300\<rparr>]"
  "titleInput calm_page"
  "links calm_page = [''https://ginkgoartworks.com/about'', ''https://opentrons-art.rcdonovan.com/art/1'']"
  by (simp_all add: calm_page_def)

lemma matching_calm_page: "matching (buttons_confirm calm_page) = [1, 3]"
  by (simp add: calm_page_fields matching_Cons is_publish_samples matching_def)

theorem confirm_publish_choice_witness:
  "(\<forall>a. \<not> throws calm_page a) \<and> matching (buttons_confirm calm_page) = [1, 3]
   \<and> clicked_buttons (snd (confirm_publish_dark calm_page)) = [3]
   \<and> clicked_buttons (snd (confirm_publish calm_page)) = [1]
   \<and> clicked_buttons (snd (confirm_publish_oneshot calm_page)) = [3]"
proof -
  from confirm_publish_choice [OF calm_pages(1)] matching_calm_page
  have "clicked_buttons (snd (confirm_publish_dark calm_page)) = [last [1, 3]]
      \<and> clicked_buttons (snd (confirm_publish calm_page)) = [hd [1, 3]]"
    by simp
  moreover have "clicked_buttons (snd (confirm_publish_oneshot calm_page)) = [3]"
    by (simp add: confirm_publish_oneshot_def press_lowest_def act_def seq_value calm_page_fields
        is_publish_samples ret_def)
  ultimately show ?thesis
    using calm_pages(1) matching_calm_page by simp
qed

theorem confirm_publish_counterexample:
  "matching (buttons_confirm calm_page) = [1, 3]
   \<and> confirm_publish calm_page
       = (Inr (), [QueryButtons, ReadText 0, ReadText 1, ClickButton 1])"
proof -
  have "confirm_publish calm_page
       = (Inr (), [QueryButtons, ReadText 0, ReadText 1, ClickButton 1])"
    by (simp add: confirm_publish_def press_publish_def act_def seq_value
        calm_page_fields is_publish_samples)
  with matching_calm_page show ?thesis
    by blast
qed

section \<open>Releasing the browser\<close>

lemma closes_append: "closes (xs @ ys) = closes xs + closes ys"
  by (simp add: closes_def)

lemma closes_Nil: "closes [] = 0"
  by (simp add: closes_def)

lemma closes_Cons: "closes (a # tr) = (if a = Close then 1 else 0) + closes tr"
  by (simp add: closes_def)

lemma avoids_closes: "avoids (\<lambda>a. a = Close) r \<Longrightarrow> closes (snd r) = 0"
  by (simp add: closes_def avoids_filter)

text \<open>
  The body of the \<^verbatim>\<open>try\<close> block closes the browser once if it returns and not at all
  if it throws, as long as the close itself does not reject: no step before the last one
  closes, and the property passes through \<open>seq\<close>.
\<close>

lemma closing_seq:
  assumes "avoids (\<lambda>a. a = Close) m"
    and "\<And>v. closes (snd (f v)) = (if isl (fst (f v)) then 0 else 1)"
  shows "closes (snd (seq m f)) = (if isl (fst (seq m f)) then 0 else 1)"
  using assms avoids_closes [OF assms(1)]
  by (auto simp: snd_seq fst_seq closes_append closes_Nil split: sum.splits)

lemma closing_last:
  assumes "\<not> throws pg Close"
  shows "closes (snd (seq (act pg Close) (\<lambda>_. ret url)))
       = (if isl (fst (seq (act pg Close) (\<lambda>_. ret url))) then 0 else 1)"
  using assms by (simp add: act_calm seq_value ret_def closes_def)

lemma closing_replay:
  assumes "\<not> throws pg Close"
  shows "closes (snd (replay pg grid title)) = (if isl (fst (replay pg grid title)) then 0 else 1)"
  unfolding replay_def confirm_publish_def
  by (intro closing_seq closing_last assms avoids_act avoids_paint avoids_press_publish
      avoids_supply_title avoids_scrape) simp_all

lemma closing_replay_dark:
  assumes "\<not> throws pg Close"
  shows "closes (snd (replay_dark pg grid title))
       = (if isl (fst (replay_dark pg grid title)) then 0 else 1)"
  unfolding replay_dark_def
  by (intro closing_seq closing_last assms avoids_act avoids_paint avoids_press_publish_dark
      avoids_supply_title_dark avoids_confirm_publish_dark avoids_scrape_dark)
     (simp_all add: avoids_raise avoids_ret)

lemma closing_replay_oneshot:
  assumes "\<not> throws pg Close"
  shows "closes (snd (replay_oneshot pg grid title))
       = (if isl (fst (replay_oneshot pg grid title)) then 0 else 1)"
  unfolding replay_oneshot_def confirm_publish_oneshot_def
  by (intro closing_seq closing_last assms avoids_act avoids_paint avoids_press_lowest
      avoids_supply_title avoids_scrape) simp_all

lemma closed_by_handler:
  assumes "\<not> throws pg Close"
    and "closes (snd body) = (if isl (fst body) then 0 else 1)"
  shows "closes (snd (try_catch body (\<lambda>err. seq (act pg Close) (\<lambda>_. raise err)))) = 1"
  using assms
  by (cases "fst body")
     (simp_all add: snd_try_catch closes_append act_calm seq_value raise_def closes_def)

text \<open>
  What does hold of the teardown: once the page has been opened, and if
  \<^verbatim>\<open>browser.close()\<close> itself does not reject, every run closes the browser exactly
  once, whether it returns or throws.
\<close>

lemma closed_once_after_page:
  assumes "\<not> throws pg Launch" and "\<not> throws pg NewPage" and "\<not> throws pg SetViewport"
    and "\<not> throws pg Close"
  shows "closes (snd (drawAndPublish pg grid title)) = 1"
    and "closes (snd (drawAndPublish_dark pg grid title)) = 1"
    and "closes (snd (drawAndPublish_oneshot pg grid title)) = 1"
proof -
  have l: "closes (snd (seq (act pg Launch) f)) = closes (snd (f ()))" for f :: "unit \<Rightarrow> string option run"
    using assms(1) by (simp add: act_calm seq_value closes_Cons)
  have n: "closes (snd (seq (act pg NewPage) f)) = closes (snd (f ()))" for f :: "unit \<Rightarrow> string option run"
    using assms(2) by (simp add: act_calm seq_value closes_Cons)
  have v: "closes (snd (seq (act pg SetViewport) f)) = closes (snd (f ()))" for f :: "unit \<Rightarrow> string option run"
    using assms(3) by (simp add: act_calm seq_value closes_Cons)
  show "closes (snd (drawAndPublish pg grid title)) = 1"
    unfolding drawAndPublish_def
    by (simp only: l n closed_by_handler [OF assms(4) closing_replay [OF assms(4)]])
  show "closes (snd (drawAndPublish_dark pg grid title)) = 1"
    unfolding drawAndPublish_dark_def
    by (simp only: l n v closed_by_handler [OF assms(4) closing_replay_dark [OF assms(4)]])
  show "closes (snd (drawAndPublish_oneshot pg grid title)) = 1"
    unfolding drawAndPublish_oneshot_def
    by (simp only: l n closed_by_handler [OF assms(4) closing_replay_oneshot [OF assms(4)]])
qed

text \<open>
  C6. The claim fails where \<^verbatim>\<open>browser.newPage()\<close> rejects: the call is made after the
  launch and before the \<^verbatim>\<open>try\<close> block, so the error leaves \<open>drawAndPublish\<close> with
  the browser launched and never closed, in all three revisions.
\<close>

theorem newPage_failure_leaves_browser_open:
  "drawAndPublish crash_page grid title = (Inl (ActionFailed NewPage), [Launch, NewPage])
   \<and> drawAndPublish_dark crash_page grid title = (Inl (ActionFailed NewPage), [Launch, NewPage])
   \<and> drawAndPublish_oneshot crash_page grid title = (Inl (ActionFailed NewPage), [Launch, NewPage])
   \<and> closes [Launch, NewPage] = 0"
  by (simp add: drawAndPublish_def drawAndPublish_dark_def drawAndPublish_oneshot_def
      crash_page_def calm_page_def act_def seq_def closes_def)

section \<open>The job table\<close>

lemma run_Nil: "run s [] = s"
  by (simp add: run_def)

lemma run_Cons: "run s (ev # evs) = run (step s ev) evs"
  by (simp add: run_def)

lemma run_append: "run s (evs @ later) = run (run s evs) later"
  by (simp add: run_def)

lemma run_snoc: "run s (evs @ [ev]) = step (run s evs) ev"
  by (simp add: run_def)

lemma heap_grows: "length (heap s) \<le> length (heap (step s ev))"
  by (cases ev) (simp_all add: Let_def split: option.splits)

lemma consistent_step:
  assumes "consistent s"
  shows "consistent (step s ev)"
proof (cases ev)
  case (PreviewOk g t now)
  with assms show ?thesis
    by (auto simp: consistent_def Let_def less_Suc_eq split: if_splits)
next
  case PreviewFailed
  with assms show ?thesis by simp
next
  case (Publish jid title)
  with assms show ?thesis
    by (auto simp: consistent_def split: option.splits)
next
  case (Status jid)
  with assms show ?thesis by simp
next
  case (Settled r outcome)
  with assms show ?thesis
    by (auto simp: consistent_def dest: notin_set_remove1)
qed

lemma consistent_run: "consistent s \<Longrightarrow> consistent (run s evs)"
  by (induction evs arbitrary: s) (simp_all add: run_Nil run_Cons consistent_step)

lemma consistent_start: "consistent start"
  by (simp add: consistent_def start_def)

lemma nth_update_cases: "r < length xs \<Longrightarrow> xs[i := v] ! r = (if i = r then v else xs ! r)"
  by (cases "i < length xs") (auto simp: nth_list_update)

lemma never_back_step:
  assumes "r < length (heap s)" and "job_status (heap (step s ev) ! r) = Preview"
  shows "job_status (heap s ! r) = Preview"
proof (cases ev)
  case (PreviewOk g t now)
  with assms show ?thesis
    by (simp add: Let_def nth_append)
next
  case PreviewFailed
  with assms show ?thesis by simp
next
  case (Publish jid title)
  with assms show ?thesis
    by (auto simp: nth_update_cases split: option.splits if_splits)
next
  case (Status jid)
  with assms show ?thesis by simp
next
  case (Settled r' outcome)
  with assms show ?thesis
    by (auto simp: nth_update_cases split: sum.splits if_splits)
qed

lemma never_back_run:
  assumes "r < length (heap s)" and "job_status (heap (run s evs) ! r) = Preview"
  shows "job_status (heap s ! r) = Preview"
  using assms
proof (induction evs arbitrary: s)
  case Nil
  then show ?case by (simp add: run_Nil)
next
  case (Cons ev evs)
  from Cons.prems(1) heap_grows [of s ev] have r: "r < length (heap (step s ev))"
    by simp
  from Cons.IH [OF r] Cons.prems(2) have "job_status (heap (step s ev) ! r) = Preview"
    by (simp add: run_Cons)
  with Cons.prems(1) show ?case
    by (rule never_back_step)
qed

lemma publish_sets_processing:
  assumes "consistent s" and "jobs s jid = Some r"
  shows "job_status (heap (step s (Publish jid title)) ! r) = Processing"
proof -
  from assms have "r < length (heap s)"
    by (auto simp: consistent_def)
  with assms(2) show ?thesis by simp
qed

lemma settled_sets_terminal:
  assumes "consistent s" and "r \<in> set (pending s)"
  shows "job_status (heap (step s (Settled r (Inr u))) ! r) = Done"
    and "job_url (heap (step s (Settled r (Inr u))) ! r) = Some u"
    and "job_status (heap (step s (Settled r (Inl e))) ! r) = Failed"
    and "job_error (heap (step s (Settled r (Inl e))) ! r) = Some e"
proof -
  from assms have "r < length (heap s)"
    by (auto simp: consistent_def)
  with assms(2) show "job_status (heap (step s (Settled r (Inr u))) ! r) = Done"
    and "job_url (heap (step s (Settled r (Inr u))) ! r) = Some u"
    and "job_status (heap (step s (Settled r (Inl e))) ! r) = Failed"
    and "job_error (heap (step s (Settled r (Inl e))) ! r) = Some e"
    by simp_all
qed

text \<open>
  C7, as amended. A job is created with status \<^verbatim>\<open>'preview'\<close>. In every state the
  server can reach: a job whose status is no longer \<^verbatim>\<open>'preview'\<close> never has that
  status again; a \<^verbatim>\<open>/publish\<close> of an id in the table sets
  the job's status to \<^verbatim>\<open>'processing'\<close> whatever it was; the settling of a background
  publish sets the status to \<^verbatim>\<open>'done'\<close> with the URL, or to \<^verbatim>\<open>'error'\<close> with the error.
  \<^verbatim>\<open>/status\<close> and a failed \<^verbatim>\<open>/preview\<close> change nothing, \<^verbatim>\<open>/publish\<close> and the settling
  leave the table as it is, and a successful \<^verbatim>\<open>/preview\<close> adds its job and removes
  exactly the ids that are more than 3600000 ms old when the sweep examines them.
\<close>

theorem job_lifecycle:
  "(\<forall>r < length (heap (run start evs)).
       job_status (heap (run start (evs @ later)) ! r) = Preview \<longrightarrow>
       job_status (heap (run start evs) ! r) = Preview)
   \<and> (\<forall>jid r. jobs (run start evs) jid = Some r \<longrightarrow>
         job_status (heap (step (run start evs) (Publish jid title)) ! r) = Processing)
   \<and> (\<forall>r \<in> set (pending (run start evs)).
         job_status (heap (step (run start evs) (Settled r (Inr u))) ! r) = Done
       \<and> job_url (heap (step (run start evs) (Settled r (Inr u))) ! r) = Some u
       \<and> job_status (heap (step (run start evs) (Settled r (Inl e))) ! r) = Failed
       \<and> job_error (heap (step (run start evs) (Settled r (Inl e))) ! r) = Some e)
   \<and> step s (Status jid') = s
   \<and> step s PreviewFailed = s
   \<and> jobs (step s (Publish jid' title')) = jobs s
   \<and> jobs (step s (Settled r' outcome)) = jobs s
   \<and> (\<forall>jid. jobs (step s (PreviewOk g t now)) jid =
         (if expired (now jid) jid then None
          else if jid = t then Some (length (heap s))
          else jobs s jid))
   \<and> job_status (heap (step s (PreviewOk g t now)) ! length (heap s)) = Preview"
proof -
  note c = consistent_run [OF consistent_start, of evs]
  have a: "\<forall>r < length (heap (run start evs)).
       job_status (heap (run start (evs @ later)) ! r) = Preview \<longrightarrow>
       job_status (heap (run start evs) ! r) = Preview"
    by (auto simp: run_append intro: never_back_run)
  have b: "\<forall>jid r. jobs (run start evs) jid = Some r \<longrightarrow>
         job_status (heap (step (run start evs) (Publish jid title)) ! r) = Processing"
    using publish_sets_processing [OF c] by blast
  have d: "\<forall>r \<in> set (pending (run start evs)).
         job_status (heap (step (run start evs) (Settled r (Inr u))) ! r) = Done
       \<and> job_url (heap (step (run start evs) (Settled r (Inr u))) ! r) = Some u
       \<and> job_status (heap (step (run start evs) (Settled r (Inl e))) ! r) = Failed
       \<and> job_error (heap (step (run start evs) (Settled r (Inl e))) ! r) = Some e"
    using settled_sets_terminal [OF c] by blast
  have e: "jobs (step s (Publish jid' title')) = jobs s"
    by (simp split: option.splits)
  have f: "jobs (step s (Settled r' outcome)) = jobs s"
    by simp
  have g: "\<forall>jid. jobs (step s (PreviewOk g t now)) jid =
         (if expired (now jid) jid then None
          else if jid = t then Some (length (heap s))
          else jobs s jid)"
    by (simp add: Let_def)
  have h: "job_status (heap (step s (PreviewOk g t now)) ! length (heap s)) = Preview"
    by (simp add: Let_def)
  from a b d e f g h show ?thesis
    by simp
qed

lemma sample_run:
  "run start [PreviewOk corner_grid 1000 (at_time 1000), Publish 1000 None]
     = \<lparr>heap = [\<lparr>job_grid = corner_grid, job_status = Processing, job_url = None, job_error = None\<rparr>],
        jobs = Map.empty(1000 \<mapsto> 0),
        pending = [0]\<rparr>"
  by (simp add: run_def start_def Let_def expired_def at_time_def)

lemma sample_run_done:
  "run start [PreviewOk corner_grid 1000 (at_time 1000), Publish 1000 None,
              Settled 0 (Inr (Some ''https://opentrons-art.rcdonovan.com/art/1''))]
     = \<lparr>heap = [\<lparr>job_grid = corner_grid, job_status = Done,
                 job_url = Some (Some ''https://opentrons-art.rcdonovan.com/art/1''),
                 job_error = None\<rparr>],
        jobs = Map.empty(1000 \<mapsto> 0),
        pending = []\<rparr>"
  using sample_run by (simp add: run_snoc [of _ "[_, _]", simplified])

theorem job_lifecycle_counterexample:
  "job_status (heap (run start
       [PreviewOk corner_grid 1000 (at_time 1000), Publish 1000 None,
        Settled 0 (Inr (Some ''https://opentrons-art.rcdonovan.com/art/1''))]) ! 0) = Done
   \<and> job_status (heap (run start
       [PreviewOk corner_grid 1000 (at_time 1000), Publish 1000 None,
        Settled 0 (Inr (Some ''https://opentrons-art.rcdonovan.com/art/1'')),
        Publish 1000 None]) ! 0) = Processing"
proof -
  have "run start
       [PreviewOk corner_grid 1000 (at_time 1000), Publish 1000 None,
        Settled 0 (Inr (Some ''https://opentrons-art.rcdonovan.com/art/1'')),
        Publish 1000 None]
     = step (run start [PreviewOk corner_grid 1000 (at_time 1000), Publish 1000 None,
        Settled 0 (Inr (Some ''https://opentrons-art.rcdonovan.com/art/1''))]) (Publish 1000 None)"
    by (simp add: run_def)
  then show ?thesis
    by (simp add: sample_run_done expired_def at_time_def)
qed


theorem job_lifecycle_witness:
  "jobs (run start [PreviewOk corner_grid 1000 (at_time 1000), Publish 1000 None]) 1000 = Some 0
   \<and> job_status (heap (step (run start [PreviewOk corner_grid 1000 (at_time 1000), Publish 1000 None])
         (Publish 1000 (Some ''again''))) ! 0) = Processing
   \<and> 0 \<in> set (pending (run start [PreviewOk corner_grid 1000 (at_time 1000), Publish 1000 None]))
   \<and> job_status (heap (step (run start [PreviewOk corner_grid 1000 (at_time 1000), Publish 1000 None])
         (Settled 0 (Inr None))) ! 0) = Done
   \<and> job_url (heap (step (run start [PreviewOk corner_grid 1000 (at_time 1000), Publish 1000 None])
         (Settled 0 (Inr None))) ! 0) = Some None
   \<and> job_status (heap (run start ([PreviewOk corner_grid 1000 (at_time 1000), Publish 1000 None]
         @ [Settled 0 (Inl TypeError)])) ! 0) \<noteq> Preview
   \<and> jobs (step (run start [PreviewOk corner_grid 1000 (at_time 1000), Publish 1000 None])
         (PreviewOk corner_grid 3601001 (at_time 3601001))) 1000 = None
   \<and> jobs (step (run start [PreviewOk corner_grid 1000 (at_time 1000), Publish 1000 None])
         (PreviewOk corner_grid 3601000 (at_time 3601000))) 1000 = Some 0"
proof -
  let ?evs = "[PreviewOk corner_grid 1000 (at_time 1000), Publish 1000 None]"
  note old = job_lifecycle [where evs = ?evs and later = "[Settled 0 (Inl TypeError)]"
      and title = "Some ''again''" and u = None and e = TypeError and s = "run start ?evs"
      and g = corner_grid and t = 3601001 and now = "at_time 3601001"
      and jid' = 1000 and title' = None and r' = 0 and outcome = "Inr None"]
  note young = job_lifecycle [where evs = ?evs and later = "[Settled 0 (Inl TypeError)]"
      and title = "Some ''again''" and u = None and e = TypeError and s = "run start ?evs"
      and g = corner_grid and t = 3601000 and now = "at_time 3601000"
      and jid' = 1000 and title' = None and r' = 0 and outcome = "Inr None"]
  have table: "jobs (run start ?evs) 1000 = Some 0"
    and waits: "0 \<in> set (pending (run start ?evs))"
    and size: "0 < length (heap (run start ?evs))"
    and now: "job_status (heap (run start ?evs) ! 0) \<noteq> Preview"
    by (simp_all add: sample_run)
  from old table have a: "job_status (heap (step (run start ?evs) (Publish 1000 (Some ''again''))) ! 0) = Processing"
    by blast
  from old waits have b: "job_status (heap (step (run start ?evs) (Settled 0 (Inr None))) ! 0) = Done
      \<and> job_url (heap (step (run start ?evs) (Settled 0 (Inr None))) ! 0) = Some None"
    by blast
  from old size now have c: "job_status (heap (run start (?evs @ [Settled 0 (Inl TypeError)])) ! 0) \<noteq> Preview"
    by blast
  have "\<forall>jid. jobs (step (run start ?evs) (PreviewOk corner_grid 3601001 (at_time 3601001))) jid =
         (if expired (at_time 3601001 jid) jid then None
          else if jid = 3601001 then Some (length (heap (run start ?evs)))
          else jobs (run start ?evs) jid)"
    by (rule old [THEN conjunct2, THEN conjunct2, THEN conjunct2, THEN conjunct2, THEN conjunct2,
          THEN conjunct2, THEN conjunct2, THEN conjunct1])
  then have d: "jobs (step (run start ?evs) (PreviewOk corner_grid 3601001 (at_time 3601001))) 1000 = None"
    by (simp add: expired_def at_time_def)
  have "\<forall>jid. jobs (step (run start ?evs) (PreviewOk corner_grid 3601000 (at_time 3601000))) jid =
         (if expired (at_time 3601000 jid) jid then None
          else if jid = 3601000 then Some (length (heap (run start ?evs)))
          else jobs (run start ?evs) jid)"
    by (rule young [THEN conjunct2, THEN conjunct2, THEN conjunct2, THEN conjunct2, THEN conjunct2,
          THEN conjunct2, THEN conjunct2, THEN conjunct1])
  then have e: "jobs (step (run start ?evs) (PreviewOk corner_grid 3601000 (at_time 3601000))) 1000 = Some 0"
    by (simp add: expired_def at_time_def table)
  from table a waits b c d e show ?thesis
    by blast
qed

end
